theory Spec2Isabelle
  imports Complex_Main "HOL-Library.Word"
begin

section \<open>Data model of PlayerCharacter.cpp\<close>

text \<open>
  The player character is an engine object: its member functions read and write members
  of the character, of the enemy they lock on to and of engine components, and they call
  into the engine (montages, traces, delegates). The embedding passes the state
  explicitly. Objects reached through pointers (items, enemies, montages) live in
  stores indexed by address; a pointer is \<open>nullptr\<close> or an address. Calls that leave
  the file (engine, components, inherited implementations, delegates) are appended to
  \<open>EngineCalls\<close> in program order; they are taken not to write the members modelled
  here. Queries answered by code outside the file (\<open>CanDodgeRoll\<close>, \<open>IsDodging\<close>,
  \<open>CanMove\<close>, \<open>IsJumping\<close>, \<open>IsPlayingFistAttackMontage\<close>) are inputs: the state
  holds the answer the call gives. A dereference of a null pointer is the result
  \<open>Inl\<close> of a sum, so every function that can crash returns \<open>Crash + state\<close>.

  \<open>int32\<close> is a 32-bit word compared as a signed number; \<open>+\<close> and \<open>-\<close> wrap
  (C++ leaves signed overflow undefined; the model takes the two's complement result).
  The engine's \<open>float\<close> is idealised as \<open>real\<close>: the functions below only compare
  floats with constants, or scale and add them to build a trace request.
\<close>

type_synonym int32 = "32 word"

definition MAX_int32 :: int32 where
  "MAX_int32 = 0x7FFFFFFF"

text \<open>
  \<open>FMath::Clamp(X, Min, Max)\<close> of the engine: \<open>X < Min ? Min : X < Max ? X : Max\<close>.
  Later engine versions write it \<open>Max(Min(X, MaxValue), MinValue)\<close>, with
  \<open>Max(A, B) = B < A ? A : B\<close> and \<open>Min(A, B) = A < B ? A : B\<close>; that form is
  \<open>Clamp_MaxMin\<close>, and the two are compared below.
\<close>

definition Clamp :: "int32 \<Rightarrow> int32 \<Rightarrow> int32 \<Rightarrow> int32" where
  "Clamp x MinValue MaxValue =
     (if x <s MinValue then MinValue else if x <s MaxValue then x else MaxValue)"

definition Clamp_MaxMin :: "int32 \<Rightarrow> int32 \<Rightarrow> int32 \<Rightarrow> int32" where
  "Clamp_MaxMin x MinValue MaxValue =
     (let m = (if x <s MaxValue then x else MaxValue)
      in if MinValue <s m then m else MinValue)"

datatype ptr = nullptr | Ptr nat

datatype FVector = FVector (X: real) (Y: real) (Z: real)

datatype FVector2D = FVector2D (X2D: real) (Y2D: real)

datatype EAnimationState = Unarmed | Pistol | Rifle

datatype Crash =
    NullDeref_LockTargetEnemy
  | NullDeref_ExecutingTarget
  | NullDeref_Montage
  | IndexOutOfRange

record UItem =
  MaxCount :: int32

record AEnemyCharacter =
  IsExecutable :: bool
  TargetWidgetVisible :: bool
  IsDead :: bool
  EnemyLocation :: FVector
  MaxHp :: real

text \<open>What a hit result's \<open>GetActor()\<close> gives, with the actor's dynamic class.\<close>

datatype AActor_ptr = NoActor | EnemyActor nat | OtherActor nat

datatype FHitResult = FHitResult (GetActor: AActor_ptr)

record SphereTraceQuery =
  TraceStart :: FVector
  TraceEnd :: FVector
  TraceRadius :: real
  ObjectTypes :: "nat list"
  bTraceComplex :: bool
  ActorsToIgnore :: "nat list"
  bIgnoreSelf :: bool

text \<open>
  The engine's answers: the sphere trace (\<open>None\<close> when nothing is hit), the distance
  between an enemy and the player, and the random draw of \<open>FMath::RandRange\<close>.
\<close>

record UWorld =
  SphereTraceSingleForObjects :: "SphereTraceQuery \<Rightarrow> FHitResult option"
  GetDistanceTo :: "nat \<Rightarrow> real"
  RandRange :: "int \<Rightarrow> int \<Rightarrow> int"

datatype EngineCall =
    AddOnScreenDebugMessage string
  | UE_LOG_Error string
  | Broadcast_OnPlayerAddItem ptr
  | Broadcast_OnPlayerUseItem
  | Broadcast_OnBeginPush
  | Heal_HalfMaxHp
  | Montage_Play ptr real
  | Montage_Stop real
  | SetControlRotation_LookAt FVector FVector
  | WeaponSystem_StartSprint
  | WeaponSystem_EndSprint
  | Super_Tick real
  | Super_OnMontageEnded ptr bool
  | TickTimeline real
  | ApplyDamage nat real

record APlayerCharacter =
  Self :: nat
  ActorName :: string
  ActorLocation :: FVector
  CameraDirection :: FVector
  PlayerController :: ptr
  CurrentAnimationState :: EAnimationState
  IsTargetLocking :: bool
  LockTargetEnemy :: ptr
  bOrientRotationToMovement :: bool
  bUseControllerRotationYaw :: bool
  TraceEnemyObjectTypes :: "nat list"
  Enemies :: "nat \<Rightarrow> AEnemyCharacter"
  CanDodgeRoll :: bool
  IsDodging :: bool
  CurrentMovementVector :: FVector2D
  DodgeRollForwardMontage :: ptr
  DodgeRollRightMontage :: ptr
  DodgeRollLeftMontage :: ptr
  DodgeRollBackwardMontage :: ptr
  FistAttackMontages :: "ptr list"
  ExecutePunchAttackMontage :: ptr
  ExecutingTarget :: ptr
  IsMeleeAttackInputReceived :: bool
  IsPlayingFistAttackMontage :: bool
  MontageName :: "nat \<Rightarrow> string"
  IsSprinting :: bool
  IsCrouching :: bool
  CanMove :: bool
  IsJumping :: bool
  MaxWalkSpeed :: real
  WalkSpeed :: real
  SprintSpeed :: real
  InventoryData :: "ptr \<rightharpoonup> int32"
  Items :: "nat \<Rightarrow> UItem"
  CurrentSlotItem :: ptr
  EngineCalls :: "EngineCall list"

definition call :: "EngineCall \<Rightarrow> APlayerCharacter \<Rightarrow> APlayerCharacter" where
  "call c s = s\<lparr>EngineCalls := EngineCalls s @ [c]\<rparr>"

section \<open>Inventory\<close>

text \<open>
  \<open>GetInventoryItemCount\<close> is a \<open>const\<close> member: it returns the count and the state
  is the one it was called in.
\<close>

definition GetInventoryItemCount :: "ptr \<Rightarrow> APlayerCharacter \<Rightarrow> int32 \<times> APlayerCharacter" where
  "GetInventoryItemCount Item s =
     (case InventoryData s Item of
        Some FoundItemCount \<Rightarrow> (FoundItemCount, s)
      | None \<Rightarrow> (0, s))"

definition HasItem :: "ptr \<Rightarrow> APlayerCharacter \<Rightarrow> bool" where
  "HasItem Item s = (Item \<in> dom (InventoryData s))"

definition AddInventoryItem :: "ptr \<Rightarrow> int32 \<Rightarrow> APlayerCharacter \<Rightarrow> bool \<times> APlayerCharacter" where
  "AddInventoryItem NewItem ItemCount s =
     (case NewItem of
        nullptr \<Rightarrow>
          (False, call (AddOnScreenDebugMessage
                          ''AddInventoryItem: Failed trying to add null item!'') s)
      | Ptr a \<Rightarrow>
          if ItemCount \<le>s 0 then
            (False, call (AddOnScreenDebugMessage
                            ''AddInventoryItem: ItemCount must be greater than 0!'') s)
          else
            (let MaxCount0 = MaxCount (Items s a);
                 MaxCount1 = (if MaxCount0 \<le>s 0 then MAX_int32 else MaxCount0)
             in case InventoryData s NewItem of
                  Some OldItemCount \<Rightarrow>
                    (True, s\<lparr>InventoryData := (InventoryData s)
                               (NewItem \<mapsto> Clamp (OldItemCount + ItemCount) 1 MaxCount1)\<rparr>)
                | None \<Rightarrow>
                    (True, call (Broadcast_OnPlayerAddItem NewItem)
                             (s\<lparr>InventoryData := (InventoryData s)(NewItem \<mapsto> ItemCount)\<rparr>))))"

definition RemoveInventoryItem :: "ptr \<Rightarrow> int32 \<Rightarrow> APlayerCharacter \<Rightarrow> bool \<times> APlayerCharacter" where
  "RemoveInventoryItem RemovedItem RemoveCount s =
     (case RemovedItem of
        nullptr \<Rightarrow>
          (False, call (AddOnScreenDebugMessage
                          ''RemoveInventoryItem: Failed trying to remove null item!'') s)
      | Ptr a \<Rightarrow>
          (let ItemCount0 = fst (GetInventoryItemCount RemovedItem s) in
           if ItemCount0 \<le>s 0 then
             (False, call (AddOnScreenDebugMessage
                             ''RemoveInventoryItem: Failed trying to remove item with 0 count!'') s)
           else
             (let ItemCount1 =
                    (if RemoveCount \<le>s 0 then 0
                     else Clamp (ItemCount0 - RemoveCount) 0 (MaxCount (Items s a)))
              in if 0 <s ItemCount1
                 then (True, s\<lparr>InventoryData := (InventoryData s)(RemovedItem \<mapsto> ItemCount1)\<rparr>)
                 else (True, s\<lparr>InventoryData := (InventoryData s)(RemovedItem := None)\<rparr>))))"

definition UseItem :: "ptr \<Rightarrow> APlayerCharacter \<Rightarrow> bool \<times> APlayerCharacter" where
  "UseItem Item s =
     (if fst (GetInventoryItemCount Item s) \<le>s 0 then
        (False, call (AddOnScreenDebugMessage ''No Item in Inventory'') s)
      else
        (let (IsRemoveItemSuccessful, s1) = RemoveInventoryItem Item 1 s
         in if IsRemoveItemSuccessful
            then (True, call Broadcast_OnPlayerUseItem (call Heal_HalfMaxHp s1))
            else (False, s1)))"

definition UseSlotItem :: "APlayerCharacter \<Rightarrow> bool \<times> APlayerCharacter" where
  "UseSlotItem s = UseItem (CurrentSlotItem s) s"

text \<open>A sequence of inventory calls, as the rest of the game makes them.\<close>

datatype InventoryCall =
    Call_AddInventoryItem ptr int32
  | Call_RemoveInventoryItem ptr int32
  | Call_UseItem ptr

fun inventory_step :: "InventoryCall \<Rightarrow> APlayerCharacter \<Rightarrow> APlayerCharacter" where
  "inventory_step (Call_AddInventoryItem i n) s = snd (AddInventoryItem i n s)"
| "inventory_step (Call_RemoveInventoryItem i n) s = snd (RemoveInventoryItem i n s)"
| "inventory_step (Call_UseItem i) s = snd (UseItem i s)"

fun inventory_run :: "InventoryCall list \<Rightarrow> APlayerCharacter \<Rightarrow> APlayerCharacter" where
  "inventory_run [] s = s"
| "inventory_run (c # cs) s = inventory_run cs (inventory_step c s)"

text \<open>The invariant of the inventory: no entry holds a count below 1.\<close>

definition counts_positive :: "(ptr \<rightharpoonup> int32) \<Rightarrow> bool" where
  "counts_positive m = (\<forall>k c. m k = Some c \<longrightarrow> 1 \<le>s c)"

section \<open>Target lock\<close>

definition FVector_add :: "FVector \<Rightarrow> FVector \<Rightarrow> FVector" where
  "FVector_add a b = FVector (X a + X b) (Y a + Y b) (Z a + Z b)"

definition FVector_scale :: "FVector \<Rightarrow> real \<Rightarrow> FVector" where
  "FVector_scale a k = FVector (X a * k) (Y a * k) (Z a * k)"

text \<open>
  \<open>SearchEnemyInFront(OutHit, IsHit)\<close>: the result is \<open>None\<close> when \<open>IsHit\<close> is false
  and the hit otherwise. \<open>CameraDirection\<close> is
  \<open>FollowCamera->GetComponentRotation().Vector()\<close>.
\<close>

definition SearchEnemyInFront :: "UWorld \<Rightarrow> APlayerCharacter \<Rightarrow> FHitResult option" where
  "SearchEnemyInFront W s =
     (let StartLocation = ActorLocation s;
          EndLocation0 = FVector_add StartLocation (FVector_scale (CameraDirection s) 1300);
          EndLocation = FVector (X EndLocation0) (Y EndLocation0) (Z StartLocation);
          IgnoredActors = [Self s]
      in SphereTraceSingleForObjects W
           \<lparr>TraceStart = StartLocation, TraceEnd = EndLocation, TraceRadius = 500,
            ObjectTypes = TraceEnemyObjectTypes s, bTraceComplex = False,
            ActorsToIgnore = IgnoredActors, bIgnoreSelf = True\<rparr>)"

definition Cast_AEnemyCharacter :: "AActor_ptr \<Rightarrow> ptr" where
  "Cast_AEnemyCharacter a = (case a of EnemyActor e \<Rightarrow> Ptr e | _ \<Rightarrow> nullptr)"

text \<open>
  Modelled from the spec: \<open>AEnemyCharacter::ShowTargetWidget\<close> and
  \<open>AEnemyCharacter::HideTargetWidget\<close> are defined outside the source files at hand.
  They show and hide the target widget of the enemy; \<open>TargetWidgetVisible\<close> is what
  \<open>TargetWidget->IsVisible()\<close> then answers.
\<close>

definition ShowTargetWidget :: "nat \<Rightarrow> APlayerCharacter \<Rightarrow> APlayerCharacter" where
  "ShowTargetWidget e s = s\<lparr>Enemies := (Enemies s)(e := (Enemies s e)\<lparr>TargetWidgetVisible := True\<rparr>)\<rparr>"

definition HideTargetWidget :: "nat \<Rightarrow> APlayerCharacter \<Rightarrow> APlayerCharacter" where
  "HideTargetWidget e s = s\<lparr>Enemies := (Enemies s)(e := (Enemies s e)\<lparr>TargetWidgetVisible := False\<rparr>)\<rparr>"

definition UnlockTarget :: "APlayerCharacter \<Rightarrow> Crash + APlayerCharacter" where
  "UnlockTarget s =
     (let s1 = s\<lparr>IsTargetLocking := False\<rparr>
      in case LockTargetEnemy s1 of
           nullptr \<Rightarrow> Inl NullDeref_LockTargetEnemy
         | Ptr e \<Rightarrow>
             Inr ((HideTargetWidget e s1)
                    \<lparr>bOrientRotationToMovement := True, bUseControllerRotationYaw := False\<rparr>))"

definition TryTargetLock :: "UWorld \<Rightarrow> APlayerCharacter \<Rightarrow> Crash + APlayerCharacter" where
  "TryTargetLock W s =
     (if CurrentAnimationState s \<noteq> Unarmed then Inr s
      else if IsTargetLocking s then UnlockTarget s
      else
        (case SearchEnemyInFront W s of
           None \<Rightarrow> Inr s
         | Some OutHit \<Rightarrow>
             (let s1 = s\<lparr>LockTargetEnemy := Cast_AEnemyCharacter (GetActor OutHit)\<rparr>
              in case LockTargetEnemy s1 of
                   nullptr \<Rightarrow> Inr s1
                 | Ptr e \<Rightarrow>
                     Inr ((ShowTargetWidget e s1)
                            \<lparr>bOrientRotationToMovement := False,
                             bUseControllerRotationYaw := True,
                             IsTargetLocking := True\<rparr>))))"

text \<open>
  \<open>Tick\<close>: the block under \<open>LockTargetEnemy != nullptr\<close> first, then the call
  \<open>LockTargetEnemy->IsDead()\<close>, which stands outside that block.
\<close>

definition Tick_follow_target :: "nat \<Rightarrow> APlayerCharacter \<Rightarrow> APlayerCharacter" where
  "Tick_follow_target e s =
     (let s1 = (if PlayerController s \<noteq> nullptr
                then call (SetControlRotation_LookAt (ActorLocation s)
                             (EnemyLocation (Enemies s e))) s
                else s);
          s2 = (if IsExecutable (Enemies s1 e) \<and> TargetWidgetVisible (Enemies s1 e)
                then HideTargetWidget e s1 else s1);
          s3 = (if \<not> IsExecutable (Enemies s2 e) \<and> \<not> TargetWidgetVisible (Enemies s2 e)
                then ShowTargetWidget e s2 else s2)
      in s3)"

definition Tick :: "real \<Rightarrow> APlayerCharacter \<Rightarrow> Crash + APlayerCharacter" where
  "Tick DeltaSeconds s =
     (let s0 = call (Super_Tick DeltaSeconds) s
      in if IsTargetLocking s0 then
           (let s1 = (case LockTargetEnemy s0 of
                        nullptr \<Rightarrow> s0
                      | Ptr e \<Rightarrow> Tick_follow_target e s0)
            in case LockTargetEnemy s1 of
                 nullptr \<Rightarrow> Inl NullDeref_LockTargetEnemy
               | Ptr e \<Rightarrow>
                   if IsDead (Enemies s1 e) then
                     (case UnlockTarget s1 of
                        Inl c \<Rightarrow> Inl c
                      | Inr s2 \<Rightarrow> Inr (call (TickTimeline DeltaSeconds) s2))
                   else Inr (call (TickTimeline DeltaSeconds) s1))
         else Inr (call (TickTimeline DeltaSeconds) s0))"

definition lock_invariant :: "APlayerCharacter \<Rightarrow> bool" where
  "lock_invariant s = (IsTargetLocking s \<longrightarrow> LockTargetEnemy s \<noteq> nullptr)"

text \<open>
  Calls that touch the lock, in the order the game makes them. A run stops at the first
  crash.
\<close>

datatype LockCall = Call_TryTargetLock UWorld | Call_UnlockTarget | Call_Tick real

fun lock_step :: "LockCall \<Rightarrow> APlayerCharacter \<Rightarrow> Crash + APlayerCharacter" where
  "lock_step (Call_TryTargetLock W) s = TryTargetLock W s"
| "lock_step Call_UnlockTarget s = UnlockTarget s"
| "lock_step (Call_Tick DeltaSeconds) s = Tick DeltaSeconds s"

fun lock_run :: "LockCall list \<Rightarrow> APlayerCharacter \<Rightarrow> Crash + APlayerCharacter" where
  "lock_run [] s = Inr s"
| "lock_run (c # cs) s = (case lock_step c s of Inl e \<Rightarrow> Inl e | Inr s1 \<Rightarrow> lock_run cs s1)"

section \<open>Dodge roll\<close>

definition TryDodgeRoll :: "APlayerCharacter \<Rightarrow> APlayerCharacter" where
  "TryDodgeRoll s =
     (if \<not> CanDodgeRoll s then s
      else if IsDodging s then s
      else if \<not> IsTargetLocking s \<and> CurrentAnimationState s = Unarmed
        then call (Montage_Play (DodgeRollForwardMontage s) 1) s
      else if X2D (CurrentMovementVector s) > 0
        then call (Montage_Play (DodgeRollRightMontage s) 1) s
      else if X2D (CurrentMovementVector s) < 0
        then call (Montage_Play (DodgeRollLeftMontage s) 1) s
      else if Y2D (CurrentMovementVector s) < 0
        then call (Montage_Play (DodgeRollBackwardMontage s) 1) s
      else call (Montage_Play (DodgeRollForwardMontage s) 1) s)"

section \<open>Fist attack combo\<close>

text \<open>
  \<open>FName\<close> comparison and \<open>FString::Contains\<close> (with its default search case) ignore
  the case of letters.
\<close>

definition ToLower :: "char \<Rightarrow> char" where
  "ToLower c =
     (if (65::nat) \<le> of_char c \<and> of_char c \<le> (90::nat)
      then char_of (of_char c + (32::nat)) else c)"

definition FName_eq :: "string \<Rightarrow> string \<Rightarrow> bool" where
  "FName_eq a b = (map ToLower a = map ToLower b)"

fun StartsWith :: "string \<Rightarrow> string \<Rightarrow> bool" where
  "StartsWith cs [] = True"
| "StartsWith [] (p # ps) = False"
| "StartsWith (c # cs) (p # ps) = (ToLower c = ToLower p \<and> StartsWith cs ps)"

fun Contains :: "string \<Rightarrow> string \<Rightarrow> bool" where
  "Contains [] sub = False"
| "Contains (c # cs) sub = (sub \<noteq> [] \<and> (StartsWith (c # cs) sub \<or> Contains cs sub))"

definition TryFistAttack :: "UWorld \<Rightarrow> APlayerCharacter \<Rightarrow> Crash + APlayerCharacter" where
  "TryFistAttack W s =
     (if FistAttackMontages s = [] then
        Inr (call (UE_LOG_Error (''FistAttackMontages is empty! '' @ ActorName s))
               (call (AddOnScreenDebugMessage
                        (''FistAttackMontages is empty, '' @ ActorName s)) s))
      else
        (let ExecutableInFront =
               (case SearchEnemyInFront W s of
                  None \<Rightarrow> None
                | Some OutHit \<Rightarrow>
                    (case Cast_AEnemyCharacter (GetActor OutHit) of
                       nullptr \<Rightarrow> None
                     | Ptr InFrontEnemy \<Rightarrow>
                         (let IsInAttackRange = (GetDistanceTo W InFrontEnemy \<le> 130)
                          in if IsInAttackRange \<and> IsExecutable (Enemies s InFrontEnemy)
                             then Some InFrontEnemy else None)))
         in case ExecutableInFront of
              Some InFrontEnemy \<Rightarrow>
                Inr (call (Montage_Play (ExecutePunchAttackMontage s) 1)
                       (s\<lparr>ExecutingTarget := Ptr InFrontEnemy\<rparr>))
            | None \<Rightarrow>
                if \<not> IsPlayingFistAttackMontage s then
                  (let RandomIndex = RandRange W 0 (int (length (FistAttackMontages s)) - 1)
                   in if 0 \<le> RandomIndex \<and> RandomIndex < int (length (FistAttackMontages s))
                      then Inr (call (Montage_Play (FistAttackMontages s ! nat RandomIndex) 1) s)
                      else Inl IndexOutOfRange)
                else Inr (s\<lparr>IsMeleeAttackInputReceived := True\<rparr>)))"

definition OnPlayMontageNotifyBegin :: "string \<Rightarrow> APlayerCharacter \<Rightarrow> Crash + APlayerCharacter" where
  "OnPlayMontageNotifyBegin NotifyName s =
     (let s1 = (if \<not> IsMeleeAttackInputReceived s \<and> FName_eq NotifyName ''ComboContinue''
                then call (Montage_Stop 0.35) s else s);
          s2 = (if FName_eq NotifyName ''ComboContinue''
                then s1\<lparr>IsMeleeAttackInputReceived := False\<rparr> else s1);
          r3 = (if FName_eq NotifyName ''Execute'' then
                  (case ExecutingTarget s2 of
                     nullptr \<Rightarrow> Inl NullDeref_ExecutingTarget
                   | Ptr e \<Rightarrow> Inr (call (ApplyDamage e (MaxHp (Enemies s2 e))) s2))
                else Inr s2)
      in case r3 of
           Inl c \<Rightarrow> Inl c
         | Inr s3 \<Rightarrow>
             Inr (if FName_eq NotifyName ''BeginPush'' then call Broadcast_OnBeginPush s3 else s3))"

definition OnMontageEnded :: "ptr \<Rightarrow> bool \<Rightarrow> APlayerCharacter \<Rightarrow> Crash + APlayerCharacter" where
  "OnMontageEnded Montage bInterrupted s =
     (let s1 = call (Super_OnMontageEnded Montage bInterrupted) s
      in case Montage of
           nullptr \<Rightarrow> Inl NullDeref_Montage
         | Ptr m \<Rightarrow>
             Inr (if Contains (MontageName s1 m) ''Combo''
                  then s1\<lparr>IsMeleeAttackInputReceived := False\<rparr> else s1))"

section \<open>Sprint\<close>

definition CanSprint :: "APlayerCharacter \<Rightarrow> bool" where
  "CanSprint s = (CanMove s \<and> \<not> IsCrouching s \<and> \<not> IsJumping s)"

definition OnSprintStart :: "APlayerCharacter \<Rightarrow> APlayerCharacter" where
  "OnSprintStart s =
     (if IsSprinting s then s
      else if \<not> CanSprint s then s
      else call WeaponSystem_StartSprint
             (s\<lparr>IsSprinting := True, MaxWalkSpeed := SprintSpeed s\<rparr>))"

definition OnSprintEnd :: "APlayerCharacter \<Rightarrow> APlayerCharacter" where
  "OnSprintEnd s =
     (if \<not> IsSprinting s then s
      else call WeaponSystem_EndSprint
             (s\<lparr>IsSprinting := False, MaxWalkSpeed := WalkSpeed s\<rparr>))"

section \<open>A concrete scene\<close>

text \<open>
  A player standing at (0, 0, 100) and looking along the x axis, with an empty inventory,
  two fist-attack montages and no locked target. The theorems below are instantiated on
  variants of this state.
\<close>

definition scene_enemy :: AEnemyCharacter where
  "scene_enemy =
     \<lparr>IsExecutable = False, TargetWidgetVisible = False, IsDead = False,
      EnemyLocation = FVector 400 0 100, MaxHp = 100\<rparr>"

definition scene :: APlayerCharacter where
  "scene =
     \<lparr>Self = 0, ActorName = ''BP_Player'', ActorLocation = FVector 0 0 100,
      CameraDirection = FVector 1 0 0, PlayerController = Ptr 1,
      CurrentAnimationState = Unarmed, IsTargetLocking = False, LockTargetEnemy = nullptr,
      bOrientRotationToMovement = True, bUseControllerRotationYaw = False,
      TraceEnemyObjectTypes = [3], Enemies = (\<lambda>e. scene_enemy),
      CanDodgeRoll = True, IsDodging = False, CurrentMovementVector = FVector2D 0 0,
      DodgeRollForwardMontage = Ptr 10, DodgeRollRightMontage = Ptr 11,
      DodgeRollLeftMontage = Ptr 12, DodgeRollBackwardMontage = Ptr 13,
      FistAttackMontages = [Ptr 20, Ptr 21], ExecutePunchAttackMontage = Ptr 22,
      ExecutingTarget = nullptr, IsMeleeAttackInputReceived = False,
      IsPlayingFistAttackMontage = False,
      MontageName = (\<lambda>m. if m = 20 \<or> m = 21 then ''AM_FistCombo'' else ''AM_DodgeRoll''),
      IsSprinting = False, IsCrouching = False, CanMove = True, IsJumping = False,
      MaxWalkSpeed = 500, WalkSpeed = 500, SprintSpeed = 800,
      InventoryData = Map.empty, Items = (\<lambda>a. \<lparr>MaxCount = (if a = 1 then 3 else 0)\<rparr>),
      CurrentSlotItem = nullptr, EngineCalls = []\<rparr>"

text \<open>A world whose sphere trace hits the enemy at address 7, 100 units away.\<close>

definition scene_world :: UWorld where
  "scene_world =
     \<lparr>SphereTraceSingleForObjects = (\<lambda>q. Some (FHitResult (EnemyActor 7))),
      GetDistanceTo = (\<lambda>e. 100), RandRange = (\<lambda>lo hi. lo)\<rparr>"

text \<open>
  The same player in the middle of a fist-attack montage, with every enemy executable.
\<close>

definition scene_mid_combo :: APlayerCharacter where
  "scene_mid_combo =
     scene\<lparr>IsPlayingFistAttackMontage := True,
           Enemies := (\<lambda>e. scene_enemy\<lparr>IsExecutable := True\<rparr>)\<rparr>"

section \<open>Signed 32-bit arithmetic\<close>

lemma sint_MAX_int32: "sint MAX_int32 = 2147483647"
  by (simp add: MAX_int32_def)

lemma sint_sub_no_wrap:
  fixes c n :: int32
  assumes "0 <s n" "n <s c"
  shows "sint (c - n) = sint c - sint n"
proof -
  have a: "0 < sint n" "sint n < sint c"
    using assms by (simp_all add: word_sless_alt)
  have b: "sint c < 2 ^ 31"
    using sint_lt [of c] by simp
  have "sint (c - n) = signed_take_bit 31 (sint c - sint n)"
    by (simp add: sint_word_ariths)
  also have "\<dots> = sint c - sint n"
    using a b by (intro signed_take_bit_int_eq_self) auto
  finally show ?thesis .
qed

lemma sint_add_no_wrap:
  fixes c n :: int32
  assumes "0 <s n" "sint c + sint n < 2 ^ 31"
  shows "sint (c + n) = sint c + sint n"
proof -
  have a: "0 < sint n"
    using assms by (simp add: word_sless_alt)
  have b: "- (2 ^ 31) \<le> sint c"
    using sint_ge [of c] by simp
  have "sint (c + n) = signed_take_bit 31 (sint c + sint n)"
    by (simp add: sint_word_ariths)
  also have "\<dots> = sint c + sint n"
    using a b assms(2) by (intro signed_take_bit_int_eq_self) auto
  finally show ?thesis .
qed

lemma sint_Clamp:
  "lo \<le>s hi \<Longrightarrow> sint (Clamp x lo hi) = max (sint lo) (min (sint x) (sint hi))"
  by (auto simp: Clamp_def word_sle_eq word_sless_alt)

text \<open>
  The two forms of \<open>Clamp\<close> agree when \<open>MinValue \<le> MaxValue\<close>, which is how
  \<open>AddInventoryItem\<close> calls it. \<open>RemoveInventoryItem\<close> calls it with \<open>MinValue = 0\<close>
  and any \<open>MaxValue\<close>, and only stores a positive result: both forms give a positive
  result on the same inputs, and then the same one.
\<close>

lemma sint_eq_iff32: "(sint (a::int32) = sint b) = (a = b)"
  by (auto intro: signed_word_eqI)

lemma Clamp_MaxMin_eq: "lo \<le>s hi \<Longrightarrow> Clamp_MaxMin x lo hi = Clamp x lo hi"
proof -
  assume h: "lo \<le>s hi"
  have "sint (Clamp_MaxMin x lo hi) = sint (Clamp x lo hi)"
    using h by (auto simp: Clamp_def Clamp_MaxMin_def Let_def word_sle_eq word_sless_alt)
  then show ?thesis by (simp add: sint_eq_iff32)
qed

lemma Clamp_MaxMin_positive:
  "(0 <s Clamp_MaxMin x 0 m) = (0 <s Clamp x 0 m)"
  by (auto simp: Clamp_def Clamp_MaxMin_def Let_def word_sle_eq word_sless_alt)

lemma Clamp_MaxMin_positive_eq:
  "0 <s Clamp x 0 m \<Longrightarrow> Clamp_MaxMin x 0 m = Clamp x 0 m"
  by (auto simp: Clamp_def Clamp_MaxMin_def Let_def word_sle_eq word_sless_alt
      split: if_splits)

lemma Clamp_nonpositive_max: "m \<le>s 0 \<Longrightarrow> \<not> 0 <s Clamp x 0 m"
  by (auto simp: Clamp_def word_sle_eq word_sless_alt)

lemma InventoryData_call [simp]: "InventoryData (call c s) = InventoryData s"
  by (simp add: call_def)

lemma EngineCalls_call [simp]: "EngineCalls (call c s) = EngineCalls s @ [c]"
  by (simp add: call_def)

section \<open>Inventory: the claims\<close>

text \<open>
  C2. For every item, \<open>GetInventoryItemCount\<close> returns the count stored for the item
  when the inventory holds the item and 0 when it does not, and the state after the call
  is the state before it.
\<close>

theorem GetInventoryItemCount_lookup:
  "(\<forall>c. InventoryData s Item = Some c \<longrightarrow> fst (GetInventoryItemCount Item s) = c) \<and>
   (InventoryData s Item = None \<longrightarrow> fst (GetInventoryItemCount Item s) = 0) \<and>
   snd (GetInventoryItemCount Item s) = s"
  by (simp add: GetInventoryItemCount_def split: option.split)

theorem GetInventoryItemCount_lookup_witness:
  "InventoryData (scene\<lparr>InventoryData := [Ptr 1 \<mapsto> 4]\<rparr>) (Ptr 1) = Some 4 \<and>
   fst (GetInventoryItemCount (Ptr 1) (scene\<lparr>InventoryData := [Ptr 1 \<mapsto> 4]\<rparr>)) = 4 \<and>
   InventoryData (scene\<lparr>InventoryData := [Ptr 1 \<mapsto> 4]\<rparr>) (Ptr 2) = None \<and>
   fst (GetInventoryItemCount (Ptr 2) (scene\<lparr>InventoryData := [Ptr 1 \<mapsto> 4]\<rparr>)) = 0 \<and>
   snd (GetInventoryItemCount (Ptr 2) (scene\<lparr>InventoryData := [Ptr 1 \<mapsto> 4]\<rparr>))
     = scene\<lparr>InventoryData := [Ptr 1 \<mapsto> 4]\<rparr>"
  using GetInventoryItemCount_lookup [of "scene\<lparr>InventoryData := [Ptr 1 \<mapsto> 4]\<rparr>" "Ptr 1"]
        GetInventoryItemCount_lookup [of "scene\<lparr>InventoryData := [Ptr 1 \<mapsto> 4]\<rparr>" "Ptr 2"]
  by simp

lemma scene_inventory [simp]:
  "InventoryData scene = Map.empty"
  "MaxCount (Items scene a) = (if a = 1 then 3 else 0)"
  "EngineCalls scene = []"
  by (simp_all add: scene_def)

lemma not_sle_zero: "(\<not> (n::int32) \<le>s 0) = (0 <s n)"
  by (auto simp: word_sle_eq word_sless_alt)

lemma AddInventoryItem_rejects:
  "NewItem = nullptr \<or> ItemCount \<le>s 0 \<Longrightarrow>
   fst (AddInventoryItem NewItem ItemCount s) = False \<and>
   InventoryData (snd (AddInventoryItem NewItem ItemCount s)) = InventoryData s"
  by (auto simp: AddInventoryItem_def split: ptr.split)

lemma AddInventoryItem_absent:
  "0 <s ItemCount \<Longrightarrow> InventoryData s (Ptr a) = None \<Longrightarrow>
   AddInventoryItem (Ptr a) ItemCount s =
     (True, call (Broadcast_OnPlayerAddItem (Ptr a))
              (s\<lparr>InventoryData := (InventoryData s)(Ptr a \<mapsto> ItemCount)\<rparr>))"
  by (simp add: AddInventoryItem_def not_sle_zero Let_def)

lemma AddInventoryItem_present:
  "0 <s ItemCount \<Longrightarrow> InventoryData s (Ptr a) = Some old \<Longrightarrow>
   AddInventoryItem (Ptr a) ItemCount s =
     (True, s\<lparr>InventoryData := (InventoryData s)
                (Ptr a \<mapsto> Clamp (old + ItemCount) 1
                   (if MaxCount (Items s a) \<le>s 0 then MAX_int32 else MaxCount (Items s a)))\<rparr>)"
  by (simp add: AddInventoryItem_def not_sle_zero Let_def)

lemma effective_MaxCount_pos:
  "1 \<le>s (if m \<le>s 0 then MAX_int32 else m)"
  by (auto simp: word_sle_eq sint_MAX_int32)

lemma sint_Clamp_sum:
  assumes "0 <s ItemCount" "sint old + sint ItemCount < 2 ^ 31"
  shows "sint (Clamp (old + ItemCount) 1 (if m \<le>s 0 then MAX_int32 else m)) =
         max 1 (min (sint old + sint ItemCount) (sint (if m \<le>s 0 then MAX_int32 else m)))"
  using sint_Clamp [OF effective_MaxCount_pos, of "old + ItemCount" m]
        sint_add_no_wrap [OF assms]
  by simp

text \<open>
  C4. \<open>AddInventoryItem\<close> returns false and leaves the inventory as it is when the item
  is null or the count is not positive. In every other case it returns true; an absent
  item gets the count \<open>ItemCount\<close> and \<open>OnPlayerAddItem\<close> is broadcast; an item already
  held gets \<open>Clamp (old + ItemCount) 1 MaxCount\<close>, where a \<open>MaxCount\<close> that is not
  positive stands for \<open>MAX_int32\<close>. The sum is the 32-bit sum of the code; as long as it
  stays below \<open>2 ^ 31\<close> the new count is the sum of the two numbers, clamped.
\<close>

theorem AddInventoryItem_spec:
  "(NewItem = nullptr \<or> ItemCount \<le>s 0 \<longrightarrow>
      fst (AddInventoryItem NewItem ItemCount s) = False \<and>
      InventoryData (snd (AddInventoryItem NewItem ItemCount s)) = InventoryData s) \<and>
   (\<forall>a. NewItem = Ptr a \<and> 0 <s ItemCount \<longrightarrow>
      fst (AddInventoryItem NewItem ItemCount s) = True \<and>
      (InventoryData s NewItem = None \<longrightarrow>
         InventoryData (snd (AddInventoryItem NewItem ItemCount s))
           = (InventoryData s)(NewItem \<mapsto> ItemCount) \<and>
         EngineCalls (snd (AddInventoryItem NewItem ItemCount s))
           = EngineCalls s @ [Broadcast_OnPlayerAddItem NewItem]) \<and>
      (\<forall>old. InventoryData s NewItem = Some old \<longrightarrow>
         InventoryData (snd (AddInventoryItem NewItem ItemCount s))
           = (InventoryData s)(NewItem \<mapsto> Clamp (old + ItemCount) 1
                (if MaxCount (Items s a) \<le>s 0 then MAX_int32 else MaxCount (Items s a))) \<and>
         EngineCalls (snd (AddInventoryItem NewItem ItemCount s)) = EngineCalls s \<and>
         (sint old + sint ItemCount < 2 ^ 31 \<longrightarrow>
            sint (Clamp (old + ItemCount) 1
                   (if MaxCount (Items s a) \<le>s 0 then MAX_int32 else MaxCount (Items s a)))
              = max 1 (min (sint old + sint ItemCount)
                   (sint (if MaxCount (Items s a) \<le>s 0 then MAX_int32
                          else MaxCount (Items s a)))))))"
proof (intro conjI allI impI)
  assume "NewItem = nullptr \<or> ItemCount \<le>s 0"
  from AddInventoryItem_rejects [OF this]
  show "fst (AddInventoryItem NewItem ItemCount s) = False"
    and "InventoryData (snd (AddInventoryItem NewItem ItemCount s)) = InventoryData s"
    by simp_all
next
  fix a assume h: "NewItem = Ptr a \<and> 0 <s ItemCount"
  show "fst (AddInventoryItem NewItem ItemCount s) = True"
    using h by (cases "InventoryData s (Ptr a)")
      (simp_all add: AddInventoryItem_absent AddInventoryItem_present)
  {
    assume n: "InventoryData s NewItem = None"
    show "InventoryData (snd (AddInventoryItem NewItem ItemCount s))
            = (InventoryData s)(NewItem \<mapsto> ItemCount)"
      using h n by (simp add: AddInventoryItem_absent)
    show "EngineCalls (snd (AddInventoryItem NewItem ItemCount s))
            = EngineCalls s @ [Broadcast_OnPlayerAddItem NewItem]"
      using h n by (simp add: AddInventoryItem_absent)
  }
  {
    fix old assume o: "InventoryData s NewItem = Some old"
    show "InventoryData (snd (AddInventoryItem NewItem ItemCount s))
           = (InventoryData s)(NewItem \<mapsto> Clamp (old + ItemCount) 1
                (if MaxCount (Items s a) \<le>s 0 then MAX_int32 else MaxCount (Items s a)))"
      using h o by (simp add: AddInventoryItem_present)
    show "EngineCalls (snd (AddInventoryItem NewItem ItemCount s)) = EngineCalls s"
      using h o by (simp add: AddInventoryItem_present)
    {
      assume "sint old + sint ItemCount < 2 ^ 31"
      with h show "sint (Clamp (old + ItemCount) 1
                   (if MaxCount (Items s a) \<le>s 0 then MAX_int32 else MaxCount (Items s a)))
              = max 1 (min (sint old + sint ItemCount)
                   (sint (if MaxCount (Items s a) \<le>s 0 then MAX_int32
                          else MaxCount (Items s a))))"
        by (intro sint_Clamp_sum) simp_all
    }
  }
qed


theorem AddInventoryItem_spec_witness:
  "fst (AddInventoryItem nullptr 5 scene) = False \<and>
   InventoryData (snd (AddInventoryItem nullptr 5 scene)) = InventoryData scene \<and>
   fst (AddInventoryItem (Ptr 1) 0 scene) = False \<and>
   fst (AddInventoryItem (Ptr 1) 2 scene) = True \<and>
   InventoryData (snd (AddInventoryItem (Ptr 1) 2 scene)) (Ptr 1) = Some 2 \<and>
   EngineCalls (snd (AddInventoryItem (Ptr 1) 2 scene)) = [Broadcast_OnPlayerAddItem (Ptr 1)] \<and>
   InventoryData (snd (AddInventoryItem (Ptr 1) 5 (scene\<lparr>InventoryData := [Ptr 1 \<mapsto> 2]\<rparr>)))
     (Ptr 1) = Some 3 \<and>
   InventoryData (snd (AddInventoryItem (Ptr 2) 5 (scene\<lparr>InventoryData := [Ptr 2 \<mapsto> 2]\<rparr>)))
     (Ptr 2) = Some 7"
  using AddInventoryItem_spec [of nullptr 5 scene]
        AddInventoryItem_spec [of "Ptr 1" 0 scene]
        AddInventoryItem_spec [of "Ptr 1" 2 scene]
        AddInventoryItem_spec [of "Ptr 1" 5 "scene\<lparr>InventoryData := [Ptr 1 \<mapsto> 2]\<rparr>"]
        AddInventoryItem_spec [of "Ptr 2" 5 "scene\<lparr>InventoryData := [Ptr 2 \<mapsto> 2]\<rparr>"]
  by (simp add: Clamp_def MAX_int32_def word_sle_eq word_sless_alt)

lemma sint_sub_pos:
  fixes c n :: int32
  assumes "0 <s n" "0 <s c"
  shows "sint (c - n) = sint c - sint n"
proof -
  have a: "0 < sint n" "0 < sint c"
    using assms by (simp_all add: word_sless_alt)
  have b: "sint c < 2 ^ 31" "sint n < 2 ^ 31"
    using sint_lt [of c] sint_lt [of n] by simp_all
  have "sint (c - n) = signed_take_bit 31 (sint c - sint n)"
    by (simp add: sint_word_ariths)
  also have "\<dots> = sint c - sint n"
    using a b by (intro signed_take_bit_int_eq_self) auto
  finally show ?thesis .
qed

lemma RemoveInventoryItem_rejects:
  "RemovedItem = nullptr \<or> fst (GetInventoryItemCount RemovedItem s) \<le>s 0 \<Longrightarrow>
   fst (RemoveInventoryItem RemovedItem RemoveCount s) = False \<and>
   InventoryData (snd (RemoveInventoryItem RemovedItem RemoveCount s)) = InventoryData s"
  by (cases RemovedItem) (simp_all add: RemoveInventoryItem_def Let_def)

lemma RemoveInventoryItem_held:
  assumes "InventoryData s (Ptr a) = Some c" "0 <s c"
  shows "RemoveInventoryItem (Ptr a) n s =
     (True,
      if n \<le>s 0 then s\<lparr>InventoryData := (InventoryData s)(Ptr a := None)\<rparr>
      else if 0 <s Clamp (c - n) 0 (MaxCount (Items s a))
        then s\<lparr>InventoryData := (InventoryData s)
                 (Ptr a \<mapsto> Clamp (c - n) 0 (MaxCount (Items s a)))\<rparr>
        else s\<lparr>InventoryData := (InventoryData s)(Ptr a := None)\<rparr>)"
proof -
  have g: "fst (GetInventoryItemCount (Ptr a) s) = c"
    using assms(1) by (simp add: GetInventoryItemCount_def)
  have p: "\<not> c \<le>s 0"
    using assms(2) by (simp add: not_sle_zero)
  show ?thesis
    unfolding RemoveInventoryItem_def g Let_def using p by simp
qed

lemma Clamp_within:
  assumes "0 <s n" "n <s c" "c - n \<le>s m"
  shows "Clamp (c - n) 0 m = c - n \<and> 0 <s c - n"
proof -
  have d: "sint (c - n) = sint c - sint n"
    using assms(1,2) by (rule sint_sub_no_wrap)
  have p: "0 < sint (c - n)"
    using assms(2) d by (simp add: word_sless_alt)
  have "Clamp (c - n) 0 m = c - n"
  proof (cases "c - n <s m")
    case True
    then show ?thesis using p by (simp add: Clamp_def word_sless_alt)
  next
    case False
    with assms(3) have "sint m = sint (c - n)"
      by (simp add: word_sle_eq word_sless_alt)
    then have "m = c - n" by (rule signed_word_eqI)
    then show ?thesis using p by (simp add: Clamp_def word_sless_alt)
  qed
  then show ?thesis using p by (simp add: word_sless_alt)
qed

lemma Clamp_above:
  assumes "0 <s n" "n <s c" "m <s c - n" "0 <s m"
  shows "Clamp (c - n) 0 m = m"
proof -
  have "\<not> c - n <s 0" "\<not> c - n <s m"
    using assms(3,4) by (simp_all add: word_sless_alt)
  then show ?thesis by (simp add: Clamp_def)
qed

lemma Clamp_all_removed:
  assumes "0 <s n" "0 <s c" "c \<le>s n"
  shows "\<not> 0 <s Clamp (c - n) 0 m"
proof -
  have d: "sint (c - n) = sint c - sint n"
    using assms(1,2) by (rule sint_sub_pos)
  have "sint (c - n) \<le> 0"
    using assms(3) d by (simp add: word_sle_eq)
  then show ?thesis
    by (simp add: Clamp_def word_sless_alt)
qed

text \<open>
  C3, as amended. For an item held with a count \<open>c\<close> of at least 1: with
  \<open>0 < n < c\<close>, \<open>RemoveInventoryItem\<close> returns true and leaves the count \<open>c - n\<close>
  provided \<open>c - n\<close> does not exceed the item's \<open>MaxCount\<close>, and leaves the count
  \<open>MaxCount\<close> when \<open>c - n\<close> exceeds a positive \<open>MaxCount\<close>; with \<open>n \<ge> c\<close> or
  \<open>n \<le> 0\<close> it returns true and removes the entry. With a null item, or when
  \<open>GetInventoryItemCount\<close> is not positive, it returns false and leaves the inventory
  as it is.
\<close>

theorem RemoveInventoryItem_spec:
  "(\<forall>a c. RemovedItem = Ptr a \<and> InventoryData s RemovedItem = Some c \<and> 0 <s c \<longrightarrow>
      fst (RemoveInventoryItem RemovedItem n s) = True \<and>
      (0 <s n \<and> n <s c \<and> c - n \<le>s MaxCount (Items s a) \<longrightarrow>
         InventoryData (snd (RemoveInventoryItem RemovedItem n s))
           = (InventoryData s)(RemovedItem \<mapsto> c - n) \<and>
         sint (c - n) = sint c - sint n) \<and>
      (0 <s n \<and> n <s c \<and> MaxCount (Items s a) <s c - n \<and> 0 <s MaxCount (Items s a) \<longrightarrow>
         InventoryData (snd (RemoveInventoryItem RemovedItem n s))
           = (InventoryData s)(RemovedItem \<mapsto> MaxCount (Items s a))) \<and>
      (c \<le>s n \<or> n \<le>s 0 \<longrightarrow>
         InventoryData (snd (RemoveInventoryItem RemovedItem n s))
           = (InventoryData s)(RemovedItem := None))) \<and>
   (RemovedItem = nullptr \<or> fst (GetInventoryItemCount RemovedItem s) \<le>s 0 \<longrightarrow>
      fst (RemoveInventoryItem RemovedItem n s) = False \<and>
      InventoryData (snd (RemoveInventoryItem RemovedItem n s)) = InventoryData s)"
proof (intro conjI allI impI)
  assume "RemovedItem = nullptr \<or> fst (GetInventoryItemCount RemovedItem s) \<le>s 0"
  from RemoveInventoryItem_rejects [OF this]
  show "fst (RemoveInventoryItem RemovedItem n s) = False"
    and "InventoryData (snd (RemoveInventoryItem RemovedItem n s)) = InventoryData s"
    by simp_all
next
  fix a c
  assume h: "RemovedItem = Ptr a \<and> InventoryData s RemovedItem = Some c \<and> 0 <s c"
  then have h1: "RemovedItem = Ptr a" and h2: "InventoryData s (Ptr a) = Some c"
    and h3: "0 <s c"
    by auto
  note eq = RemoveInventoryItem_held [OF h2 h3, of n]
  show "fst (RemoveInventoryItem RemovedItem n s) = True"
    unfolding h1 eq by simp
  {
    assume k: "0 <s n \<and> n <s c \<and> c - n \<le>s MaxCount (Items s a)"
    then have "Clamp (c - n) 0 (MaxCount (Items s a)) = c - n \<and> 0 <s c - n"
      by (intro Clamp_within) simp_all
    moreover have "\<not> n \<le>s 0"
      using k by (simp add: not_sle_zero)
    ultimately show "InventoryData (snd (RemoveInventoryItem RemovedItem n s))
           = (InventoryData s)(RemovedItem \<mapsto> c - n)"
      unfolding h1 eq by simp
    show "sint (c - n) = sint c - sint n"
      using k by (intro sint_sub_no_wrap) simp_all
  }
  {
    assume k: "0 <s n \<and> n <s c \<and> MaxCount (Items s a) <s c - n \<and> 0 <s MaxCount (Items s a)"
    then have "Clamp (c - n) 0 (MaxCount (Items s a)) = MaxCount (Items s a)"
      by (intro Clamp_above) simp_all
    moreover have "\<not> n \<le>s 0"
      using k by (simp add: not_sle_zero)
    ultimately show "InventoryData (snd (RemoveInventoryItem RemovedItem n s))
           = (InventoryData s)(RemovedItem \<mapsto> MaxCount (Items s a))"
      unfolding h1 eq using k by simp
  }
  {
    assume k: "c \<le>s n \<or> n \<le>s 0"
    show "InventoryData (snd (RemoveInventoryItem RemovedItem n s))
           = (InventoryData s)(RemovedItem := None)"
    proof (cases "n \<le>s 0")
      case True
      then show ?thesis unfolding h1 eq by simp
    next
      case False
      then have "0 <s n" by (simp add: not_sle_zero)
      moreover from False k have "c \<le>s n" by simp
      ultimately have "\<not> 0 <s Clamp (c - n) 0 (MaxCount (Items s a))"
        using h3 by (intro Clamp_all_removed) simp_all
      then show ?thesis unfolding h1 eq using False by simp
    qed
  }
qed

theorem RemoveInventoryItem_spec_witness:
  "fst (RemoveInventoryItem (Ptr 1) 1 (scene\<lparr>InventoryData := [Ptr 1 \<mapsto> 3]\<rparr>)) = True \<and>
   InventoryData (snd (RemoveInventoryItem (Ptr 1) 1 (scene\<lparr>InventoryData := [Ptr 1 \<mapsto> 3]\<rparr>)))
     = [Ptr 1 \<mapsto> 2] \<and>
   InventoryData (snd (RemoveInventoryItem (Ptr 1) 1 (scene\<lparr>InventoryData := [Ptr 1 \<mapsto> 10]\<rparr>)))
     = [Ptr 1 \<mapsto> 3] \<and>
   InventoryData (snd (RemoveInventoryItem (Ptr 1) 5 (scene\<lparr>InventoryData := [Ptr 1 \<mapsto> 3]\<rparr>)))
     = Map.empty \<and>
   InventoryData (snd (RemoveInventoryItem (Ptr 1) 0 (scene\<lparr>InventoryData := [Ptr 1 \<mapsto> 3]\<rparr>)))
     = Map.empty \<and>
   fst (RemoveInventoryItem nullptr 1 (scene\<lparr>InventoryData := [Ptr 1 \<mapsto> 3]\<rparr>)) = False \<and>
   fst (RemoveInventoryItem (Ptr 2) 1 (scene\<lparr>InventoryData := [Ptr 1 \<mapsto> 3]\<rparr>)) = False \<and>
   InventoryData (snd (RemoveInventoryItem (Ptr 2) 1 (scene\<lparr>InventoryData := [Ptr 1 \<mapsto> 3]\<rparr>)))
     = [Ptr 1 \<mapsto> 3]"
proof -
  let ?s = "scene\<lparr>InventoryData := [Ptr 1 \<mapsto> 3]\<rparr>"
  let ?t = "scene\<lparr>InventoryData := [Ptr 1 \<mapsto> 10]\<rparr>"
  have a: "fst (RemoveInventoryItem (Ptr 1) 1 ?s) = True \<and>
           InventoryData (snd (RemoveInventoryItem (Ptr 1) 1 ?s)) = [Ptr 1 \<mapsto> 2]"
    using RemoveInventoryItem_spec [of "Ptr 1" ?s 1]
    by (simp add: word_sle_eq word_sless_alt)
  have b: "InventoryData (snd (RemoveInventoryItem (Ptr 1) 1 ?t)) = [Ptr 1 \<mapsto> 3]"
    using RemoveInventoryItem_spec [of "Ptr 1" ?t 1]
    by (simp add: word_sle_eq word_sless_alt)
  have c: "InventoryData (snd (RemoveInventoryItem (Ptr 1) 5 ?s)) = Map.empty \<and>
           InventoryData (snd (RemoveInventoryItem (Ptr 1) 0 ?s)) = Map.empty"
    using RemoveInventoryItem_spec [of "Ptr 1" ?s 5] RemoveInventoryItem_spec [of "Ptr 1" ?s 0]
    by (simp add: word_sle_eq word_sless_alt)
  have p: "Ptr 2 = nullptr \<or> fst (GetInventoryItemCount (Ptr 2) ?s) \<le>s 0"
    by (simp add: GetInventoryItemCount_def)
  have q: "nullptr = nullptr \<or> fst (GetInventoryItemCount nullptr ?s) \<le>s 0"
    by simp
  have d: "fst (RemoveInventoryItem nullptr 1 ?s) = False \<and>
           fst (RemoveInventoryItem (Ptr 2) 1 ?s) = False \<and>
           InventoryData (snd (RemoveInventoryItem (Ptr 2) 1 ?s)) = [Ptr 1 \<mapsto> 3]"
    using RemoveInventoryItem_spec [of "Ptr 2" ?s 1, THEN conjunct2, THEN mp, OF p]
          RemoveInventoryItem_spec [of nullptr ?s 1, THEN conjunct2, THEN mp, OF q]
    by simp
  from a b c d show ?thesis by blast
qed

text \<open>
  The claim as first stated (the count left is always \<open>c - n\<close>) fails: adding 10 of an
  item whose \<open>MaxCount\<close> is 3 stores 10, and removing 1 then leaves 3, not 9.
\<close>

theorem RemoveInventoryItem_counterexample:
  "fst (AddInventoryItem (Ptr 1) 10 scene) = True \<and>
   InventoryData (snd (AddInventoryItem (Ptr 1) 10 scene)) (Ptr 1) = Some 10 \<and>
   (0::int32) <s 1 \<and> (1::int32) <s 10 \<and>
   InventoryData
     (snd (RemoveInventoryItem (Ptr 1) 1 (snd (AddInventoryItem (Ptr 1) 10 scene)))) (Ptr 1)
     = Some 3 \<and>
   (3::int32) \<noteq> 10 - 1"
  by (simp add: AddInventoryItem_def RemoveInventoryItem_def GetInventoryItemCount_def
      Clamp_def Let_def call_def word_sle_eq word_sless_alt)

text \<open>
  \<open>AddInventoryItem\<close> reads a \<open>MaxCount\<close> that is not positive as "no limit";
  \<open>RemoveInventoryItem\<close> clamps to it as it stands, so removing one of five such items
  removes them all.
\<close>

lemma RemoveInventoryItem_unlimited_item:
  "MaxCount (Items scene 2) = 0 \<and>
   InventoryData (snd (AddInventoryItem (Ptr 2) 5 scene)) (Ptr 2) = Some 5 \<and>
   InventoryData
     (snd (RemoveInventoryItem (Ptr 2) 1 (snd (AddInventoryItem (Ptr 2) 5 scene)))) (Ptr 2)
     = None"
  by (simp add: AddInventoryItem_def RemoveInventoryItem_def GetInventoryItemCount_def
      Clamp_def Let_def call_def word_sle_eq word_sless_alt)

lemma counts_positive_empty: "counts_positive Map.empty"
  by (simp add: counts_positive_def)

lemma counts_positive_upd:
  "counts_positive m \<Longrightarrow> 1 \<le>s c \<Longrightarrow> counts_positive (m(k \<mapsto> c))"
  by (simp add: counts_positive_def)

lemma counts_positive_del:
  "counts_positive m \<Longrightarrow> counts_positive (m(k := None))"
  by (simp add: counts_positive_def)

lemma one_sle_iff: "(1 \<le>s (c::int32)) = (0 <s c)"
  by (auto simp: word_sle_eq word_sless_alt)

lemma AddInventoryItem_counts_positive:
  assumes "counts_positive (InventoryData s)"
  shows "counts_positive (InventoryData (snd (AddInventoryItem NewItem ItemCount s)))"
proof (cases "NewItem = nullptr \<or> ItemCount \<le>s 0")
  case True
  from AddInventoryItem_rejects [OF this] assms show ?thesis by simp
next
  case False
  then obtain a where a: "NewItem = Ptr a" and p: "0 <s ItemCount"
    by (cases NewItem) (auto simp: not_sle_zero)
  show ?thesis
  proof (cases "InventoryData s (Ptr a)")
    case None
    with assms p show ?thesis
      unfolding a by (simp add: AddInventoryItem_absent counts_positive_upd one_sle_iff)
  next
    case (Some old)
    have "1 \<le>s Clamp (old + ItemCount) 1
            (if MaxCount (Items s a) \<le>s 0 then MAX_int32 else MaxCount (Items s a))"
      using effective_MaxCount_pos
      by (auto simp: Clamp_def word_sle_eq word_sless_alt sint_MAX_int32)
    with assms Some p show ?thesis
      unfolding a by (simp add: AddInventoryItem_present counts_positive_upd)
  qed
qed

lemma RemoveInventoryItem_counts_positive:
  assumes "counts_positive (InventoryData s)"
  shows "counts_positive (InventoryData (snd (RemoveInventoryItem RemovedItem n s)))"
proof (cases "RemovedItem = nullptr \<or> fst (GetInventoryItemCount RemovedItem s) \<le>s 0")
  case True
  from RemoveInventoryItem_rejects [OF this] assms show ?thesis by simp
next
  case False
  then obtain a where a: "RemovedItem = Ptr a"
    and p: "0 <s fst (GetInventoryItemCount (Ptr a) s)"
    by (cases RemovedItem) (auto simp: not_sle_zero)
  then obtain c where c: "InventoryData s (Ptr a) = Some c" and c0: "0 <s c"
    by (cases "InventoryData s (Ptr a)") (auto simp: GetInventoryItemCount_def)
  show ?thesis
    unfolding a RemoveInventoryItem_held [OF c c0]
    using assms by (simp add: counts_positive_upd counts_positive_del one_sle_iff)
qed

lemma UseItem_counts_positive:
  assumes "counts_positive (InventoryData s)"
  shows "counts_positive (InventoryData (snd (UseItem Item s)))"
proof (cases "fst (GetInventoryItemCount Item s) \<le>s 0")
  case True
  with assms show ?thesis by (simp add: UseItem_def)
next
  case False
  have "InventoryData (snd (UseItem Item s)) =
        InventoryData (snd (RemoveInventoryItem Item 1 s))"
    using False by (simp add: UseItem_def split: prod.split)
  with RemoveInventoryItem_counts_positive [OF assms, of Item 1] show ?thesis by simp
qed

lemma inventory_step_counts_positive:
  "counts_positive (InventoryData s) \<Longrightarrow> counts_positive (InventoryData (inventory_step c s))"
  by (cases c)
    (simp_all add: AddInventoryItem_counts_positive RemoveInventoryItem_counts_positive
      UseItem_counts_positive)

lemma inventory_run_counts_positive:
  "counts_positive (InventoryData s) \<Longrightarrow> counts_positive (InventoryData (inventory_run cs s))"
  by (induction cs arbitrary: s) (simp_all add: inventory_step_counts_positive)

text \<open>
  C5. Starting from an empty inventory, after any sequence of \<open>AddInventoryItem\<close>,
  \<open>RemoveInventoryItem\<close> and \<open>UseItem\<close> calls every stored count is at least 1, and
  so \<open>HasItem\<close> holds of an item exactly when \<open>GetInventoryItemCount\<close> of it is positive.
\<close>

theorem inventory_counts_at_least_one:
  assumes "InventoryData s0 = Map.empty"
  shows "(\<forall>Item c. InventoryData (inventory_run cs s0) Item = Some c \<longrightarrow> 1 \<le>s c) \<and>
         (\<forall>Item. HasItem Item (inventory_run cs s0)
                  = (0 <s fst (GetInventoryItemCount Item (inventory_run cs s0))))"
proof -
  have "counts_positive (InventoryData s0)"
    using assms by (simp add: counts_positive_empty)
  then have inv: "counts_positive (InventoryData (inventory_run cs s0))"
    by (rule inventory_run_counts_positive)
  then have a: "\<forall>Item c. InventoryData (inventory_run cs s0) Item = Some c \<longrightarrow> 1 \<le>s c"
    by (simp add: counts_positive_def)
  have b: "HasItem Item (inventory_run cs s0)
            = (0 <s fst (GetInventoryItemCount Item (inventory_run cs s0)))" for Item
  proof (cases "InventoryData (inventory_run cs s0) Item")
    case None
    then show ?thesis
      by (simp add: HasItem_def GetInventoryItemCount_def dom_def)
  next
    case (Some c)
    with a have "0 <s c" by (simp add: one_sle_iff)
    with Some show ?thesis
      by (simp add: HasItem_def GetInventoryItemCount_def dom_def)
  qed
  from a b show ?thesis by blast
qed

theorem inventory_counts_at_least_one_witness:
  "InventoryData scene = Map.empty \<and>
   InventoryData
     (inventory_run [Call_AddInventoryItem (Ptr 1) 10, Call_RemoveInventoryItem (Ptr 1) 1,
                     Call_UseItem (Ptr 1), Call_AddInventoryItem (Ptr 2) 5,
                     Call_RemoveInventoryItem (Ptr 2) 1] scene) (Ptr 1) = Some 2 \<and>
   (1::int32) \<le>s 2 \<and>
   HasItem (Ptr 1)
     (inventory_run [Call_AddInventoryItem (Ptr 1) 10, Call_RemoveInventoryItem (Ptr 1) 1,
                     Call_UseItem (Ptr 1), Call_AddInventoryItem (Ptr 2) 5,
                     Call_RemoveInventoryItem (Ptr 2) 1] scene) \<and>
   \<not> HasItem (Ptr 2)
     (inventory_run [Call_AddInventoryItem (Ptr 1) 10, Call_RemoveInventoryItem (Ptr 1) 1,
                     Call_UseItem (Ptr 1), Call_AddInventoryItem (Ptr 2) 5,
                     Call_RemoveInventoryItem (Ptr 2) 1] scene)"
proof -
  let ?cs = "[Call_AddInventoryItem (Ptr 1) 10, Call_RemoveInventoryItem (Ptr 1) 1,
              Call_UseItem (Ptr 1), Call_AddInventoryItem (Ptr 2) 5,
              Call_RemoveInventoryItem (Ptr 2) 1]"
  have e: "InventoryData (inventory_run ?cs scene) = [Ptr 1 \<mapsto> 2]"
    by (simp add: AddInventoryItem_def RemoveInventoryItem_def UseItem_def
        GetInventoryItemCount_def Clamp_def Let_def call_def word_sle_eq word_sless_alt)
  have z: "InventoryData scene = Map.empty" by simp
  from inventory_counts_at_least_one [OF z, of ?cs] e z show ?thesis
    by (simp add: GetInventoryItemCount_def word_sle_eq word_sless_alt)
qed

section \<open>Target lock: the claims\<close>

lemma SearchEnemyInFront_query:
  "SearchEnemyInFront W s =
     SphereTraceSingleForObjects W
       \<lparr>TraceStart = ActorLocation s,
        TraceEnd = FVector (X (ActorLocation s) + X (CameraDirection s) * 1300)
                           (Y (ActorLocation s) + Y (CameraDirection s) * 1300)
                           (Z (ActorLocation s)),
        TraceRadius = 500, ObjectTypes = TraceEnemyObjectTypes s, bTraceComplex = False,
        ActorsToIgnore = [Self s], bIgnoreSelf = True\<rparr>"
  by (simp add: SearchEnemyInFront_def FVector_add_def FVector_scale_def Let_def)

lemma UnlockTarget_locked:
  "LockTargetEnemy s = Ptr e \<Longrightarrow>
   UnlockTarget s =
     Inr ((HideTargetWidget e (s\<lparr>IsTargetLocking := False\<rparr>))
            \<lparr>bOrientRotationToMovement := True, bUseControllerRotationYaw := False\<rparr>)"
  by (simp add: UnlockTarget_def Let_def)

lemma UnlockTarget_result:
  "UnlockTarget s = Inr s' \<Longrightarrow> \<not> IsTargetLocking s' \<and> LockTargetEnemy s' = LockTargetEnemy s"
  by (cases "LockTargetEnemy s")
    (auto simp: UnlockTarget_def Let_def HideTargetWidget_def)

lemma TryTargetLock_not_Unarmed:
  "CurrentAnimationState s \<noteq> Unarmed \<Longrightarrow> TryTargetLock W s = Inr s"
  by (simp add: TryTargetLock_def)

lemma TryTargetLock_unlock:
  "CurrentAnimationState s = Unarmed \<Longrightarrow> IsTargetLocking s \<Longrightarrow>
   TryTargetLock W s = UnlockTarget s"
  by (simp add: TryTargetLock_def)

lemma TryTargetLock_miss:
  "CurrentAnimationState s = Unarmed \<Longrightarrow> \<not> IsTargetLocking s \<Longrightarrow>
   SearchEnemyInFront W s = None \<Longrightarrow> TryTargetLock W s = Inr s"
  by (simp add: TryTargetLock_def)

lemma TryTargetLock_hit_enemy:
  "CurrentAnimationState s = Unarmed \<Longrightarrow> \<not> IsTargetLocking s \<Longrightarrow>
   SearchEnemyInFront W s = Some (FHitResult (EnemyActor e)) \<Longrightarrow>
   TryTargetLock W s =
     Inr ((ShowTargetWidget e (s\<lparr>LockTargetEnemy := Ptr e\<rparr>))
            \<lparr>bOrientRotationToMovement := False, bUseControllerRotationYaw := True,
             IsTargetLocking := True\<rparr>)"
  by (simp add: TryTargetLock_def Cast_AEnemyCharacter_def Let_def)

lemma TryTargetLock_hit_other:
  "CurrentAnimationState s = Unarmed \<Longrightarrow> \<not> IsTargetLocking s \<Longrightarrow>
   SearchEnemyInFront W s = Some (FHitResult a) \<Longrightarrow> \<forall>e. a \<noteq> EnemyActor e \<Longrightarrow>
   TryTargetLock W s = Inr (s\<lparr>LockTargetEnemy := nullptr\<rparr>)"
  by (cases a) (simp_all add: TryTargetLock_def Cast_AEnemyCharacter_def Let_def)

text \<open>
  C6. \<open>TryTargetLock\<close> leaves the state as it is unless the animation state is
  \<open>Unarmed\<close>. When the player is locking on a target it unlocks: \<open>IsTargetLocking\<close>
  becomes false, the target's widget is hidden, and rotation follows movement again.
  Otherwise it runs the sphere trace from the actor location to the point 1300 units along
  the camera direction, brought to the height of the start, with radius 500 and the player
  ignored; \<open>IsTargetLocking\<close> is true afterwards exactly when the trace hits an enemy
  character, which is then \<open>LockTargetEnemy\<close> and has its target widget shown.
\<close>

theorem TryTargetLock_spec:
  "(CurrentAnimationState s \<noteq> Unarmed \<longrightarrow> TryTargetLock W s = Inr s) \<and>
   (CurrentAnimationState s = Unarmed \<and> IsTargetLocking s \<and> lock_invariant s \<longrightarrow>
      (\<exists>e s'. LockTargetEnemy s = Ptr e \<and> TryTargetLock W s = Inr s' \<and>
         \<not> IsTargetLocking s' \<and> \<not> TargetWidgetVisible (Enemies s' e) \<and>
         bOrientRotationToMovement s' \<and> \<not> bUseControllerRotationYaw s')) \<and>
   (CurrentAnimationState s = Unarmed \<and> \<not> IsTargetLocking s \<longrightarrow>
      SearchEnemyInFront W s =
        SphereTraceSingleForObjects W
          \<lparr>TraceStart = ActorLocation s,
           TraceEnd = FVector (X (ActorLocation s) + X (CameraDirection s) * 1300)
                              (Y (ActorLocation s) + Y (CameraDirection s) * 1300)
                              (Z (ActorLocation s)),
           TraceRadius = 500, ObjectTypes = TraceEnemyObjectTypes s, bTraceComplex = False,
           ActorsToIgnore = [Self s], bIgnoreSelf = True\<rparr> \<and>
      (\<exists>s'. TryTargetLock W s = Inr s' \<and>
         (IsTargetLocking s' =
            (\<exists>e. SearchEnemyInFront W s = Some (FHitResult (EnemyActor e)))) \<and>
         (\<forall>e. SearchEnemyInFront W s = Some (FHitResult (EnemyActor e)) \<longrightarrow>
            LockTargetEnemy s' = Ptr e \<and> TargetWidgetVisible (Enemies s' e))))"
proof (intro conjI impI)
  assume "CurrentAnimationState s \<noteq> Unarmed"
  then show "TryTargetLock W s = Inr s" by (rule TryTargetLock_not_Unarmed)
next
  assume h: "CurrentAnimationState s = Unarmed \<and> IsTargetLocking s \<and> lock_invariant s"
  then obtain e where e: "LockTargetEnemy s = Ptr e"
    by (cases "LockTargetEnemy s") (auto simp: lock_invariant_def)
  have "TryTargetLock W s = UnlockTarget s"
    using h by (simp add: TryTargetLock_unlock)
  then have "TryTargetLock W s =
     Inr ((HideTargetWidget e (s\<lparr>IsTargetLocking := False\<rparr>))
            \<lparr>bOrientRotationToMovement := True, bUseControllerRotationYaw := False\<rparr>)"
    by (simp add: UnlockTarget_locked [OF e])
  with e show "\<exists>e s'. LockTargetEnemy s = Ptr e \<and> TryTargetLock W s = Inr s' \<and>
         \<not> IsTargetLocking s' \<and> \<not> TargetWidgetVisible (Enemies s' e) \<and>
         bOrientRotationToMovement s' \<and> \<not> bUseControllerRotationYaw s'"
    by (simp add: HideTargetWidget_def)
next
  assume h: "CurrentAnimationState s = Unarmed \<and> \<not> IsTargetLocking s"
  show "SearchEnemyInFront W s =
        SphereTraceSingleForObjects W
          \<lparr>TraceStart = ActorLocation s,
           TraceEnd = FVector (X (ActorLocation s) + X (CameraDirection s) * 1300)
                              (Y (ActorLocation s) + Y (CameraDirection s) * 1300)
                              (Z (ActorLocation s)),
           TraceRadius = 500, ObjectTypes = TraceEnemyObjectTypes s, bTraceComplex = False,
           ActorsToIgnore = [Self s], bIgnoreSelf = True\<rparr>"
    by (rule SearchEnemyInFront_query)
  show "\<exists>s'. TryTargetLock W s = Inr s' \<and>
         (IsTargetLocking s' =
            (\<exists>e. SearchEnemyInFront W s = Some (FHitResult (EnemyActor e)))) \<and>
         (\<forall>e. SearchEnemyInFront W s = Some (FHitResult (EnemyActor e)) \<longrightarrow>
            LockTargetEnemy s' = Ptr e \<and> TargetWidgetVisible (Enemies s' e))"
  proof (cases "SearchEnemyInFront W s")
    case None
    with h show ?thesis by (simp add: TryTargetLock_miss)
  next
    case (Some OutHit)
    obtain a where a: "OutHit = FHitResult a" by (cases OutHit)
    show ?thesis
    proof (cases "\<exists>e. a = EnemyActor e")
      case True
      then obtain e where "a = EnemyActor e" ..
      with h Some a show ?thesis
        by (simp add: TryTargetLock_hit_enemy ShowTargetWidget_def)
    next
      case False
      then have "\<forall>e. a \<noteq> EnemyActor e" by simp
      with h Some a have "TryTargetLock W s = Inr (s\<lparr>LockTargetEnemy := nullptr\<rparr>)"
        by (intro TryTargetLock_hit_other) simp_all
      with h Some a False show ?thesis by simp
    qed
  qed
qed

lemma scene_lock [simp]:
  "CurrentAnimationState scene = Unarmed"
  "IsTargetLocking scene = False"
  "LockTargetEnemy scene = nullptr"
  by (simp_all add: scene_def)

lemma scene_world_hit [simp]:
  "SearchEnemyInFront scene_world s = Some (FHitResult (EnemyActor 7))"
  by (simp add: SearchEnemyInFront_def scene_world_def Let_def)

theorem TryTargetLock_spec_witness:
  "TryTargetLock scene_world (scene\<lparr>CurrentAnimationState := Pistol\<rparr>)
     = Inr (scene\<lparr>CurrentAnimationState := Pistol\<rparr>) \<and>
   (\<exists>s'. TryTargetLock scene_world (scene\<lparr>IsTargetLocking := True, LockTargetEnemy := Ptr 7\<rparr>)
           = Inr s' \<and>
         \<not> IsTargetLocking s' \<and> \<not> TargetWidgetVisible (Enemies s' 7) \<and>
         bOrientRotationToMovement s' \<and> \<not> bUseControllerRotationYaw s') \<and>
   (\<exists>s'. TryTargetLock scene_world scene = Inr s' \<and> IsTargetLocking s' \<and>
         LockTargetEnemy s' = Ptr 7 \<and> TargetWidgetVisible (Enemies s' 7))"
  using TryTargetLock_spec [of "scene\<lparr>CurrentAnimationState := Pistol\<rparr>" scene_world]
        TryTargetLock_spec [of "scene\<lparr>IsTargetLocking := True, LockTargetEnemy := Ptr 7\<rparr>"
          scene_world]
        TryTargetLock_spec [of scene scene_world]
  by (simp add: lock_invariant_def)

lemma lock_invariant_call [simp]: "lock_invariant (call c s) = lock_invariant s"
  by (simp add: lock_invariant_def call_def)

lemma Tick_follow_target_lock [simp]:
  "LockTargetEnemy (Tick_follow_target e s) = LockTargetEnemy s"
  "IsTargetLocking (Tick_follow_target e s) = IsTargetLocking s"
  by (simp_all add: Tick_follow_target_def Let_def call_def ShowTargetWidget_def
      HideTargetWidget_def)

lemma UnlockTarget_invariant:
  "UnlockTarget s = Inr s' \<Longrightarrow> lock_invariant s'"
  using UnlockTarget_result [of s s'] by (simp add: lock_invariant_def)

lemma UnlockTarget_succeeds:
  "LockTargetEnemy s \<noteq> nullptr \<Longrightarrow> \<exists>s'. UnlockTarget s = Inr s'"
  by (cases "LockTargetEnemy s") (simp_all add: UnlockTarget_locked)

lemma Tick_invariant:
  assumes "lock_invariant s"
  shows "\<exists>s'. Tick DeltaSeconds s = Inr s' \<and> lock_invariant s'"
proof (cases "IsTargetLocking s")
  case False
  with assms show ?thesis
    by (simp add: Tick_def Let_def call_def lock_invariant_def)
next
  case True
  with assms obtain e where e: "LockTargetEnemy s = Ptr e"
    by (cases "LockTargetEnemy s") (auto simp: lock_invariant_def)
  let ?s0 = "call (Super_Tick DeltaSeconds) s"
  let ?s1 = "Tick_follow_target e ?s0"
  have l0: "IsTargetLocking ?s0" "LockTargetEnemy ?s0 = Ptr e"
    using True e by (simp_all add: call_def)
  have l1: "LockTargetEnemy ?s1 = Ptr e" "IsTargetLocking ?s1"
    using l0 by simp_all
  show ?thesis
  proof (cases "IsDead (Enemies ?s1 e)")
    case dead: True
    obtain s2 where s2: "UnlockTarget ?s1 = Inr s2"
      using UnlockTarget_succeeds [of ?s1] l1 by auto
    have "Tick DeltaSeconds s = Inr (call (TickTimeline DeltaSeconds) s2)"
      using l0 l1 dead s2 by (simp add: Tick_def Let_def)
    moreover have "lock_invariant s2"
      using s2 by (rule UnlockTarget_invariant)
    ultimately show ?thesis by simp
  next
    case alive: False
    have "Tick DeltaSeconds s = Inr (call (TickTimeline DeltaSeconds) ?s1)"
      using l0 l1 alive by (simp add: Tick_def Let_def)
    moreover have "lock_invariant ?s1"
      using l1 by (simp add: lock_invariant_def)
    ultimately show ?thesis by simp
  qed
qed

lemma TryTargetLock_invariant:
  assumes "lock_invariant s"
  shows "\<exists>s'. TryTargetLock W s = Inr s' \<and> lock_invariant s'"
proof (cases "CurrentAnimationState s = Unarmed")
  case False
  with assms show ?thesis by (simp add: TryTargetLock_not_Unarmed)
next
  case Unarmed: True
  show ?thesis
  proof (cases "IsTargetLocking s")
    case True
    with assms have "LockTargetEnemy s \<noteq> nullptr" by (simp add: lock_invariant_def)
    then obtain s' where "UnlockTarget s = Inr s'"
      using UnlockTarget_succeeds by blast
    with Unarmed True show ?thesis
      by (auto simp: TryTargetLock_unlock dest: UnlockTarget_invariant)
  next
    case False
    show ?thesis
    proof (cases "SearchEnemyInFront W s")
      case None
      with Unarmed False assms show ?thesis by (simp add: TryTargetLock_miss)
    next
      case (Some OutHit)
      obtain a where a: "OutHit = FHitResult a" by (cases OutHit)
      show ?thesis
      proof (cases "\<exists>e. a = EnemyActor e")
        case True
        then obtain e where "a = EnemyActor e" ..
        with Unarmed False Some a show ?thesis
          by (simp add: TryTargetLock_hit_enemy ShowTargetWidget_def lock_invariant_def)
      next
        case no_enemy: False
        then have "\<forall>e. a \<noteq> EnemyActor e" by simp
        with Unarmed False Some a
        have "TryTargetLock W s = Inr (s\<lparr>LockTargetEnemy := nullptr\<rparr>)"
          by (intro TryTargetLock_hit_other) simp_all
        with False show ?thesis by (simp add: lock_invariant_def)
      qed
    qed
  qed
qed

lemma lock_step_invariant:
  "lock_invariant s \<Longrightarrow> lock_step c s = Inr s' \<Longrightarrow> lock_invariant s'"
proof (cases c)
  case (Call_TryTargetLock W)
  assume "lock_invariant s" "lock_step c s = Inr s'"
  with Call_TryTargetLock TryTargetLock_invariant [of s W] show ?thesis by auto
next
  case Call_UnlockTarget
  assume "lock_invariant s" "lock_step c s = Inr s'"
  with Call_UnlockTarget show ?thesis by (auto dest: UnlockTarget_invariant)
next
  case (Call_Tick dt)
  assume "lock_invariant s" "lock_step c s = Inr s'"
  with Call_Tick Tick_invariant [of s dt] show ?thesis by auto
qed

lemma lock_step_succeeds:
  "lock_invariant s \<Longrightarrow> c \<noteq> Call_UnlockTarget \<Longrightarrow> \<exists>s'. lock_step c s = Inr s'"
  using TryTargetLock_invariant [of s] Tick_invariant [of s]
  by (cases c) auto

lemma lock_run_invariant:
  "lock_invariant s \<Longrightarrow> lock_run cs s = Inr s' \<Longrightarrow> lock_invariant s'"
proof (induction cs arbitrary: s)
  case Nil
  then show ?case by simp
next
  case (Cons c cs)
  then obtain s1 where s1: "lock_step c s = Inr s1" and r: "lock_run cs s1 = Inr s'"
    by (cases "lock_step c s") simp_all
  from Cons.prems(1) s1 have "lock_invariant s1" by (rule lock_step_invariant)
  then show ?case using r by (rule Cons.IH)
qed

lemma lock_run_succeeds:
  "lock_invariant s \<Longrightarrow> Call_UnlockTarget \<notin> set cs \<Longrightarrow> \<exists>s'. lock_run cs s = Inr s'"
proof (induction cs arbitrary: s)
  case Nil
  then show ?case by simp
next
  case (Cons c cs)
  then have "c \<noteq> Call_UnlockTarget" by auto
  with Cons.prems(1) obtain s1 where s1: "lock_step c s = Inr s1"
    using lock_step_succeeds by blast
  with Cons.prems(1) have "lock_invariant s1" by (rule lock_step_invariant)
  with Cons.IH [of s1] Cons.prems(2) s1 show ?case by simp
qed

text \<open>
  C7. "\<open>IsTargetLocking\<close> implies \<open>LockTargetEnemy\<close> is not null" is preserved by
  \<open>Tick\<close>, \<open>TryTargetLock\<close> and \<open>UnlockTarget\<close>; where it holds, \<open>Tick\<close> and
  \<open>TryTargetLock\<close> return without a crash. So after any run of these calls that started
  where it holds, \<open>Tick\<close> does not dereference a null \<open>LockTargetEnemy\<close>, and a run
  that only ticks and toggles the lock never crashes.
\<close>

theorem lock_target_never_null:
  assumes "lock_invariant s"
  shows "(\<exists>s'. Tick DeltaSeconds s = Inr s' \<and> lock_invariant s') \<and>
         (\<exists>s'. TryTargetLock W s = Inr s' \<and> lock_invariant s') \<and>
         (\<forall>s'. UnlockTarget s = Inr s' \<longrightarrow> lock_invariant s') \<and>
         (\<forall>s'. lock_run cs s = Inr s' \<longrightarrow>
            lock_invariant s' \<and> Tick DeltaSeconds s' \<noteq> Inl NullDeref_LockTargetEnemy) \<and>
         (Call_UnlockTarget \<notin> set cs \<longrightarrow> (\<exists>s'. lock_run cs s = Inr s'))"
proof (intro conjI allI impI)
  show "\<exists>s'. Tick DeltaSeconds s = Inr s' \<and> lock_invariant s'"
    using assms by (rule Tick_invariant)
  show "\<exists>s'. TryTargetLock W s = Inr s' \<and> lock_invariant s'"
    using assms by (rule TryTargetLock_invariant)
next
  fix s' assume "UnlockTarget s = Inr s'"
  then show "lock_invariant s'" by (rule UnlockTarget_invariant)
next
  fix s' assume r: "lock_run cs s = Inr s'"
  with assms show i: "lock_invariant s'" by (rule lock_run_invariant)
  from Tick_invariant [OF i, of DeltaSeconds]
  show "Tick DeltaSeconds s' \<noteq> Inl NullDeref_LockTargetEnemy" by auto
next
  assume "Call_UnlockTarget \<notin> set cs"
  with assms show "\<exists>s'. lock_run cs s = Inr s'" by (rule lock_run_succeeds)
qed

theorem lock_target_never_null_witness:
  "lock_invariant (scene\<lparr>IsTargetLocking := True, LockTargetEnemy := Ptr 7\<rparr>) \<and>
   IsTargetLocking (scene\<lparr>IsTargetLocking := True, LockTargetEnemy := Ptr 7\<rparr>) \<and>
   (\<exists>s'. Tick 1 (scene\<lparr>IsTargetLocking := True, LockTargetEnemy := Ptr 7\<rparr>) = Inr s' \<and>
         lock_invariant s') \<and>
   (\<exists>s'. TryTargetLock scene_world (scene\<lparr>IsTargetLocking := True, LockTargetEnemy := Ptr 7\<rparr>)
           = Inr s' \<and> lock_invariant s') \<and>
   (\<exists>s'. lock_run [Call_Tick 1, Call_TryTargetLock scene_world, Call_Tick 1]
           (scene\<lparr>IsTargetLocking := True, LockTargetEnemy := Ptr 7\<rparr>) = Inr s')"
proof -
  let ?s = "scene\<lparr>IsTargetLocking := True, LockTargetEnemy := Ptr 7\<rparr>"
  have i: "lock_invariant ?s" by (simp add: lock_invariant_def)
  from lock_target_never_null
         [OF i, of 1 scene_world "[Call_Tick 1, Call_TryTargetLock scene_world, Call_Tick 1]"] i
  show ?thesis by simp
qed

text \<open>
  The call \<open>LockTargetEnemy->IsDead()\<close> is made outside the null check: without the
  invariant \<open>Tick\<close> crashes.
\<close>

lemma Tick_without_invariant:
  "Tick DeltaSeconds (scene\<lparr>IsTargetLocking := True\<rparr>) = Inl NullDeref_LockTargetEnemy"
  by (simp add: Tick_def Let_def call_def)

section \<open>Dodge roll: the claim\<close>

text \<open>
  C8. \<open>TryDodgeRoll\<close> leaves the state as it is unless \<open>CanDodgeRoll\<close> holds and no
  dodge is in progress. Otherwise it plays one montage: the forward roll when the player is
  not locking on a target and is \<open>Unarmed\<close>; else the right roll when the movement
  vector has \<open>X > 0\<close>, else the left roll when \<open>X < 0\<close>, else the backward roll when
  \<open>Y < 0\<close>, and the forward roll in what remains.
\<close>

theorem TryDodgeRoll_spec:
  "(\<not> CanDodgeRoll s \<or> IsDodging s \<longrightarrow> TryDodgeRoll s = s) \<and>
   (CanDodgeRoll s \<and> \<not> IsDodging s \<longrightarrow>
      (\<not> IsTargetLocking s \<and> CurrentAnimationState s = Unarmed \<longrightarrow>
         TryDodgeRoll s = call (Montage_Play (DodgeRollForwardMontage s) 1) s) \<and>
      (IsTargetLocking s \<or> CurrentAnimationState s \<noteq> Unarmed \<longrightarrow>
         (X2D (CurrentMovementVector s) > 0 \<longrightarrow>
            TryDodgeRoll s = call (Montage_Play (DodgeRollRightMontage s) 1) s) \<and>
         (\<not> X2D (CurrentMovementVector s) > 0 \<and> X2D (CurrentMovementVector s) < 0 \<longrightarrow>
            TryDodgeRoll s = call (Montage_Play (DodgeRollLeftMontage s) 1) s) \<and>
         (\<not> X2D (CurrentMovementVector s) > 0 \<and> \<not> X2D (CurrentMovementVector s) < 0 \<and>
          Y2D (CurrentMovementVector s) < 0 \<longrightarrow>
            TryDodgeRoll s = call (Montage_Play (DodgeRollBackwardMontage s) 1) s) \<and>
         (\<not> X2D (CurrentMovementVector s) > 0 \<and> \<not> X2D (CurrentMovementVector s) < 0 \<and>
          \<not> Y2D (CurrentMovementVector s) < 0 \<longrightarrow>
            TryDodgeRoll s = call (Montage_Play (DodgeRollForwardMontage s) 1) s)))"
  by (simp add: TryDodgeRoll_def)

lemma scene_dodge [simp]:
  "CanDodgeRoll scene" "\<not> IsDodging scene"
  "CurrentMovementVector scene = FVector2D 0 0"
  "DodgeRollForwardMontage scene = Ptr 10" "DodgeRollRightMontage scene = Ptr 11"
  "DodgeRollLeftMontage scene = Ptr 12" "DodgeRollBackwardMontage scene = Ptr 13"
  by (simp_all add: scene_def)

theorem TryDodgeRoll_spec_witness:
  "TryDodgeRoll (scene\<lparr>CanDodgeRoll := False\<rparr>) = scene\<lparr>CanDodgeRoll := False\<rparr> \<and>
   TryDodgeRoll (scene\<lparr>IsDodging := True\<rparr>) = scene\<lparr>IsDodging := True\<rparr> \<and>
   EngineCalls (TryDodgeRoll scene) = [Montage_Play (Ptr 10) 1] \<and>
   EngineCalls (TryDodgeRoll (scene\<lparr>IsTargetLocking := True,
      CurrentMovementVector := FVector2D 1 (- 1)\<rparr>)) = [Montage_Play (Ptr 11) 1] \<and>
   EngineCalls (TryDodgeRoll (scene\<lparr>IsTargetLocking := True,
      CurrentMovementVector := FVector2D (- 1) 0\<rparr>)) = [Montage_Play (Ptr 12) 1] \<and>
   EngineCalls (TryDodgeRoll (scene\<lparr>CurrentAnimationState := Rifle,
      CurrentMovementVector := FVector2D 0 (- 1)\<rparr>)) = [Montage_Play (Ptr 13) 1] \<and>
   EngineCalls (TryDodgeRoll (scene\<lparr>IsTargetLocking := True,
      CurrentMovementVector := FVector2D 0 1\<rparr>)) = [Montage_Play (Ptr 10) 1]"
  using TryDodgeRoll_spec [of "scene\<lparr>CanDodgeRoll := False\<rparr>"]
        TryDodgeRoll_spec [of "scene\<lparr>IsDodging := True\<rparr>"]
        TryDodgeRoll_spec [of scene]
        TryDodgeRoll_spec [of "scene\<lparr>IsTargetLocking := True,
          CurrentMovementVector := FVector2D 1 (- 1)\<rparr>"]
        TryDodgeRoll_spec [of "scene\<lparr>IsTargetLocking := True,
          CurrentMovementVector := FVector2D (- 1) 0\<rparr>"]
        TryDodgeRoll_spec [of "scene\<lparr>CurrentAnimationState := Rifle,
          CurrentMovementVector := FVector2D 0 (- 1)\<rparr>"]
        TryDodgeRoll_spec [of "scene\<lparr>IsTargetLocking := True,
          CurrentMovementVector := FVector2D 0 1\<rparr>"]
  by (simp add: scene_def call_def)

section \<open>Fist attack combo: the claim\<close>

lemma StartsWith_self: "StartsWith (sub @ post) sub"
  by (induction sub) simp_all

lemma Contains_infix: "sub \<noteq> [] \<Longrightarrow> Contains (pre @ sub @ post) sub"
proof (induction pre)
  case Nil
  then obtain c cs where "sub = c # cs" by (cases sub) auto
  then show ?case using StartsWith_self [of sub post] by simp
next
  case (Cons a pre)
  then show ?case by simp
qed

lemma FName_eq_ComboContinue_only:
  assumes "FName_eq NotifyName ''ComboContinue''"
  shows "\<not> FName_eq NotifyName ''Execute''" "\<not> FName_eq NotifyName ''BeginPush''"
proof -
  have "length (map ToLower NotifyName) = length (map ToLower ''ComboContinue'')"
    using assms unfolding FName_eq_def by (rule arg_cong)
  then have l: "length NotifyName = 13"
    by simp
  show "\<not> FName_eq NotifyName ''Execute''"
  proof
    assume "FName_eq NotifyName ''Execute''"
    then have "length (map ToLower NotifyName) = length (map ToLower ''Execute'')"
      unfolding FName_eq_def by (rule arg_cong)
    with l show False by simp
  qed
  show "\<not> FName_eq NotifyName ''BeginPush''"
  proof
    assume "FName_eq NotifyName ''BeginPush''"
    then have "length (map ToLower NotifyName) = length (map ToLower ''BeginPush'')"
      unfolding FName_eq_def by (rule arg_cong)
    with l show False by simp
  qed
qed

lemma OnPlayMontageNotifyBegin_ComboContinue:
  assumes "FName_eq NotifyName ''ComboContinue''"
  shows "OnPlayMontageNotifyBegin NotifyName s =
           Inr ((if IsMeleeAttackInputReceived s then s else call (Montage_Stop 0.35) s)
                  \<lparr>IsMeleeAttackInputReceived := False\<rparr>)"
  using assms FName_eq_ComboContinue_only [OF assms]
  by (simp add: OnPlayMontageNotifyBegin_def Let_def)

lemma TryFistAttack_buffers:
  assumes "FistAttackMontages s \<noteq> []" "IsPlayingFistAttackMontage s"
    and "\<forall>e. SearchEnemyInFront W s = Some (FHitResult (EnemyActor e)) \<longrightarrow>
           \<not> (GetDistanceTo W e \<le> 130 \<and> IsExecutable (Enemies s e))"
  shows "TryFistAttack W s = Inr (s\<lparr>IsMeleeAttackInputReceived := True\<rparr>)"
proof -
  have "(case SearchEnemyInFront W s of
                  None \<Rightarrow> None
                | Some OutHit \<Rightarrow>
                    (case Cast_AEnemyCharacter (GetActor OutHit) of
                       nullptr \<Rightarrow> None
                     | Ptr InFrontEnemy \<Rightarrow>
                         (let IsInAttackRange = (GetDistanceTo W InFrontEnemy \<le> 130)
                          in if IsInAttackRange \<and> IsExecutable (Enemies s InFrontEnemy)
                             then Some InFrontEnemy else None))) = None"
  proof (cases "SearchEnemyInFront W s")
    case None
    then show ?thesis by simp
  next
    case (Some OutHit)
    obtain a where a: "OutHit = FHitResult a" by (cases OutHit)
    show ?thesis
      using assms(3) Some a
      by (cases a) (auto simp: Cast_AEnemyCharacter_def Let_def)
  qed
  then show ?thesis
    using assms(1,2) by (simp add: TryFistAttack_def Let_def)
qed

lemma TryFistAttack_executes:
  assumes "FistAttackMontages s \<noteq> []"
    and "SearchEnemyInFront W s = Some (FHitResult (EnemyActor e))"
    and "GetDistanceTo W e \<le> 130" "IsExecutable (Enemies s e)"
  shows "TryFistAttack W s =
           Inr (call (Montage_Play (ExecutePunchAttackMontage s) 1)
                  (s\<lparr>ExecutingTarget := Ptr e\<rparr>))"
  using assms by (simp add: TryFistAttack_def Cast_AEnemyCharacter_def Let_def)

text \<open>
  C9, as amended. \<open>TryFistAttack\<close> sets \<open>IsMeleeAttackInputReceived\<close> and starts no
  montage when a fist-attack montage is playing, \<open>FistAttackMontages\<close> is not empty and
  the trace finds no executable enemy within 130 units in front; when it finds one,
  \<open>TryFistAttack\<close> plays \<open>ExecutePunchAttackMontage\<close> and leaves the flag as it is. At a
  \<open>ComboContinue\<close> notify the montage is stopped exactly when the flag is false, and the
  flag is false afterwards. When a montage whose name contains \<open>Combo\<close> ends, the flag is
  false afterwards.
\<close>

theorem fist_combo_spec:
  "(FistAttackMontages s \<noteq> [] \<and> IsPlayingFistAttackMontage s \<and>
    (\<forall>e. SearchEnemyInFront W s = Some (FHitResult (EnemyActor e)) \<longrightarrow>
           \<not> (GetDistanceTo W e \<le> 130 \<and> IsExecutable (Enemies s e))) \<longrightarrow>
      TryFistAttack W s = Inr (s\<lparr>IsMeleeAttackInputReceived := True\<rparr>)) \<and>
   (\<forall>e. FistAttackMontages s \<noteq> [] \<and>
         SearchEnemyInFront W s = Some (FHitResult (EnemyActor e)) \<and>
         GetDistanceTo W e \<le> 130 \<and> IsExecutable (Enemies s e) \<longrightarrow>
      TryFistAttack W s =
        Inr (call (Montage_Play (ExecutePunchAttackMontage s) 1)
               (s\<lparr>ExecutingTarget := Ptr e\<rparr>))) \<and>
   (FName_eq NotifyName ''ComboContinue'' \<longrightarrow>
      (\<exists>s'. OnPlayMontageNotifyBegin NotifyName s = Inr s' \<and>
         \<not> IsMeleeAttackInputReceived s' \<and>
         EngineCalls s' =
           (if IsMeleeAttackInputReceived s then EngineCalls s
            else EngineCalls s @ [Montage_Stop 0.35]))) \<and>
   (\<forall>m pre post. MontageName s m = pre @ ''Combo'' @ post \<longrightarrow>
      (\<exists>s'. OnMontageEnded (Ptr m) bInterrupted s = Inr s' \<and>
         \<not> IsMeleeAttackInputReceived s'))"
proof (intro conjI allI impI)
  assume "FistAttackMontages s \<noteq> [] \<and> IsPlayingFistAttackMontage s \<and>
    (\<forall>e. SearchEnemyInFront W s = Some (FHitResult (EnemyActor e)) \<longrightarrow>
           \<not> (GetDistanceTo W e \<le> 130 \<and> IsExecutable (Enemies s e)))"
  then show "TryFistAttack W s = Inr (s\<lparr>IsMeleeAttackInputReceived := True\<rparr>)"
    by (intro TryFistAttack_buffers) simp_all
next
  fix e
  assume "FistAttackMontages s \<noteq> [] \<and>
         SearchEnemyInFront W s = Some (FHitResult (EnemyActor e)) \<and>
         GetDistanceTo W e \<le> 130 \<and> IsExecutable (Enemies s e)"
  then show "TryFistAttack W s =
        Inr (call (Montage_Play (ExecutePunchAttackMontage s) 1)
               (s\<lparr>ExecutingTarget := Ptr e\<rparr>))"
    by (intro TryFistAttack_executes) simp_all
next
  assume "FName_eq NotifyName ''ComboContinue''"
  then show "\<exists>s'. OnPlayMontageNotifyBegin NotifyName s = Inr s' \<and>
         \<not> IsMeleeAttackInputReceived s' \<and>
         EngineCalls s' =
           (if IsMeleeAttackInputReceived s then EngineCalls s
            else EngineCalls s @ [Montage_Stop 0.35])"
    by (simp add: OnPlayMontageNotifyBegin_ComboContinue)
next
  fix m pre post
  assume "MontageName s m = pre @ ''Combo'' @ post"
  then have "Contains (MontageName s m) ''Combo''"
    using Contains_infix [of "''Combo''" pre post] by simp
  then show "\<exists>s'. OnMontageEnded (Ptr m) bInterrupted s = Inr s' \<and>
         \<not> IsMeleeAttackInputReceived s'"
    by (simp add: OnMontageEnded_def Let_def call_def)
qed

lemma scene_world_distance [simp]: "GetDistanceTo scene_world e = 100"
  by (simp add: scene_world_def)

lemma scene_fist [simp]:
  "FistAttackMontages scene = [Ptr 20, Ptr 21]"
  "ExecutePunchAttackMontage scene = Ptr 22"
  "\<not> IsMeleeAttackInputReceived scene"
  "\<not> IsExecutable (Enemies scene e)"
  "MontageName scene 20 = ''AM_FistCombo''"
  by (simp_all add: scene_def scene_enemy_def)

lemma scene_mid_combo_fields [simp]:
  "FistAttackMontages scene_mid_combo = [Ptr 20, Ptr 21]"
  "ExecutePunchAttackMontage scene_mid_combo = Ptr 22"
  "IsPlayingFistAttackMontage scene_mid_combo"
  "\<not> IsMeleeAttackInputReceived scene_mid_combo"
  "IsExecutable (Enemies scene_mid_combo e)"
  "EngineCalls scene_mid_combo = []"
  by (simp_all add: scene_mid_combo_def scene_enemy_def)

theorem fist_combo_spec_witness:
  "TryFistAttack scene_world (scene\<lparr>IsPlayingFistAttackMontage := True\<rparr>)
     = Inr (scene\<lparr>IsPlayingFistAttackMontage := True, IsMeleeAttackInputReceived := True\<rparr>) \<and>
   TryFistAttack scene_world scene_mid_combo
     = Inr (call (Montage_Play (Ptr 22) 1) (scene_mid_combo\<lparr>ExecutingTarget := Ptr 7\<rparr>)) \<and>
   (\<exists>s'. OnPlayMontageNotifyBegin ''ComboContinue'' scene = Inr s' \<and>
         \<not> IsMeleeAttackInputReceived s' \<and> EngineCalls s' = [Montage_Stop 0.35]) \<and>
   (\<exists>s'. OnPlayMontageNotifyBegin ''ComboContinue''
           (scene\<lparr>IsMeleeAttackInputReceived := True\<rparr>) = Inr s' \<and>
         \<not> IsMeleeAttackInputReceived s' \<and> EngineCalls s' = []) \<and>
   (\<exists>s'. OnMontageEnded (Ptr 20) False (scene\<lparr>IsMeleeAttackInputReceived := True\<rparr>) = Inr s' \<and>
         \<not> IsMeleeAttackInputReceived s')"
proof -
  have n: "MontageName (scene\<lparr>IsMeleeAttackInputReceived := True\<rparr>) 20
             = ''AM_Fist'' @ ''Combo'' @ []"
    by simp
  have "\<exists>s'. OnMontageEnded (Ptr 20) False (scene\<lparr>IsMeleeAttackInputReceived := True\<rparr>) = Inr s' \<and>
         \<not> IsMeleeAttackInputReceived s'"
    using fist_combo_spec [of "scene\<lparr>IsMeleeAttackInputReceived := True\<rparr>" scene_world
        "''ComboContinue''" False] n
    by blast
  then show ?thesis
    using fist_combo_spec [of "scene\<lparr>IsPlayingFistAttackMontage := True\<rparr>" scene_world
            "''ComboContinue''" False]
          fist_combo_spec [of scene_mid_combo scene_world "''ComboContinue''" False]
          fist_combo_spec [of scene scene_world "''ComboContinue''" False]
          fist_combo_spec [of "scene\<lparr>IsMeleeAttackInputReceived := True\<rparr>" scene_world
            "''ComboContinue''" False]
    by (simp add: FName_eq_def)
qed

text \<open>
  The claim as first stated (the flag is set whenever a fist-attack montage is playing)
  fails: with an executable enemy 100 units in front, \<open>TryFistAttack\<close> starts the
  execution montage and the flag stays false.
\<close>

theorem fist_combo_counterexample:
  "FistAttackMontages scene_mid_combo \<noteq> [] \<and>
   IsPlayingFistAttackMontage scene_mid_combo \<and>
   \<not> IsMeleeAttackInputReceived scene_mid_combo \<and>
   TryFistAttack scene_world scene_mid_combo
     = Inr (call (Montage_Play (Ptr 22) 1) (scene_mid_combo\<lparr>ExecutingTarget := Ptr 7\<rparr>)) \<and>
   \<not> IsMeleeAttackInputReceived
        (call (Montage_Play (Ptr 22) 1) (scene_mid_combo\<lparr>ExecutingTarget := Ptr 7\<rparr>)) \<and>
   EngineCalls (call (Montage_Play (Ptr 22) 1) (scene_mid_combo\<lparr>ExecutingTarget := Ptr 7\<rparr>))
     = [Montage_Play (Ptr 22) 1]"
  by (simp add: TryFistAttack_def Cast_AEnemyCharacter_def Let_def call_def)

section \<open>Sprint: the claim\<close>

text \<open>
  C10. \<open>OnSprintStart\<close> leaves the state as it is when the player is sprinting or
  \<open>CanSprint\<close> fails, and otherwise sets \<open>IsSprinting\<close> and sets \<open>MaxWalkSpeed\<close> to
  \<open>SprintSpeed\<close>. \<open>OnSprintEnd\<close> leaves the state as it is when the player is not
  sprinting, and otherwise clears \<open>IsSprinting\<close> and sets \<open>MaxWalkSpeed\<close> to
  \<open>WalkSpeed\<close>. So where \<open>OnSprintStart\<close> takes effect, \<open>OnSprintEnd\<close> after it
  leaves \<open>MaxWalkSpeed\<close> at the \<open>WalkSpeed\<close> of the state before.
\<close>

theorem sprint_spec:
  "(IsSprinting s \<or> \<not> CanSprint s \<longrightarrow> OnSprintStart s = s) \<and>
   (\<not> IsSprinting s \<and> CanSprint s \<longrightarrow>
      IsSprinting (OnSprintStart s) \<and> MaxWalkSpeed (OnSprintStart s) = SprintSpeed s) \<and>
   (\<not> IsSprinting s \<longrightarrow> OnSprintEnd s = s) \<and>
   (IsSprinting s \<longrightarrow>
      \<not> IsSprinting (OnSprintEnd s) \<and> MaxWalkSpeed (OnSprintEnd s) = WalkSpeed s) \<and>
   (\<not> IsSprinting s \<and> CanSprint s \<longrightarrow>
      MaxWalkSpeed (OnSprintEnd (OnSprintStart s)) = WalkSpeed s \<and>
      \<not> IsSprinting (OnSprintEnd (OnSprintStart s)))"
  by (simp add: OnSprintStart_def OnSprintEnd_def call_def)

lemma scene_sprint [simp]:
  "\<not> IsSprinting scene" "CanMove scene" "\<not> IsCrouching scene" "\<not> IsJumping scene"
  "WalkSpeed scene = 500" "SprintSpeed scene = 800" "MaxWalkSpeed scene = 500"
  by (simp_all add: scene_def)

theorem sprint_spec_witness:
  "OnSprintStart (scene\<lparr>IsCrouching := True\<rparr>) = scene\<lparr>IsCrouching := True\<rparr> \<and>
   IsSprinting (OnSprintStart scene) \<and> MaxWalkSpeed (OnSprintStart scene) = 800 \<and>
   OnSprintEnd scene = scene \<and>
   MaxWalkSpeed (OnSprintEnd (OnSprintStart scene)) = 500 \<and>
   \<not> IsSprinting (OnSprintEnd (OnSprintStart scene))"
  using sprint_spec [of "scene\<lparr>IsCrouching := True\<rparr>"] sprint_spec [of scene]
  by (simp add: CanSprint_def)

end
